theory Spec2Isabelle
  imports Main
begin

section \<open>JSON values and the Python operations applied to them\<close>

text \<open>
  The program reads three remote JSON documents (the version manifest, the version
  detail document, the asset index) with \<^verbatim>\<open>json.loads\<close> and walks them as untyped
  Python values. A value of type \<open>json\<close> is what \<^verbatim>\<open>json.loads\<close> returns: \<open>JObj\<close> holds the
  items of the parsed \<^verbatim>\<open>dict\<close> in insertion order (keys pairwise distinct, as in a
  \<^verbatim>\<open>dict\<close>), \<open>JArr\<close> the elements of a \<^verbatim>\<open>list\<close>. Numbers are restricted to integers;
  no operation of the source looks inside a number.
\<close>

datatype json =
    JNull
  | JBool bool
  | JNum int
  | JStr string
  | JArr "json list"
  | JObj "(string \<times> json) list"

text \<open>
  The exceptions the modelled code can raise, by the name of their Python class.
  \<open>ValueError\<close> carries its message, \<open>KeyError\<close> the missing key, \<open>HTTPError\<close> the
  status code.
\<close>

datatype error =
    ValueError string
  | KeyError string
  | TypeError
  | AttributeError
  | AssertionError
  | JSONDecodeError
  | ConnectionError
  | InvalidURL
  | HTTPError nat
  | FileExistsError
  | FileNotFoundError
  | NotADirectoryError
  | IsADirectoryError

text \<open>\<^verbatim>\<open>x.get(key, default)\<close>: only a \<^verbatim>\<open>dict\<close> has the method.\<close>

fun py_get :: "json \<Rightarrow> string \<Rightarrow> json \<Rightarrow> error + json" where
  "py_get (JObj kv) k d = Inr (case map_of kv k of Some v \<Rightarrow> v | None \<Rightarrow> d)"
| "py_get _ k d = Inl AttributeError"

text \<open>
  \<^verbatim>\<open>x[key]\<close> with a string key: \<^verbatim>\<open>KeyError\<close> on a \<^verbatim>\<open>dict\<close> without the key,
  \<^verbatim>\<open>TypeError\<close> on every other value (a list or string wants an integer index, the
  rest is not subscriptable).
\<close>

fun py_subscript :: "json \<Rightarrow> string \<Rightarrow> error + json" where
  "py_subscript (JObj kv) k = (case map_of kv k of Some v \<Rightarrow> Inr v | None \<Rightarrow> Inl (KeyError k))"
| "py_subscript _ k = Inl TypeError"

fun subscripts :: "json \<Rightarrow> string list \<Rightarrow> error + json" where
  "subscripts x [] = Inr x"
| "subscripts x (k # ks) =
     (case py_subscript x k of Inl e \<Rightarrow> Inl e | Inr v \<Rightarrow> subscripts v ks)"

fun contains_str :: "string \<Rightarrow> string \<Rightarrow> bool" where
  "contains_str k [] = (k = [])"
| "contains_str k (c # cs) = (take (length k) (c # cs) = k \<or> contains_str k cs)"

text \<open>
  \<^verbatim>\<open>key in x\<close>: key membership on a \<^verbatim>\<open>dict\<close>, element membership on a list, substring
  test on a string, \<^verbatim>\<open>TypeError\<close> on a value that is not iterable.
\<close>

fun py_in :: "string \<Rightarrow> json \<Rightarrow> error + bool" where
  "py_in k (JObj kv) = Inr (k \<in> set (map fst kv))"
| "py_in k (JArr xs) = Inr (JStr k \<in> set xs)"
| "py_in k (JStr s) = Inr (contains_str k s)"
| "py_in k _ = Inl TypeError"

text \<open>
  \<^verbatim>\<open>for x in v\<close>: the elements of a list, the keys of a \<^verbatim>\<open>dict\<close>, the characters of a
  string; \<^verbatim>\<open>TypeError\<close> otherwise.
\<close>

fun py_iter :: "json \<Rightarrow> error + json list" where
  "py_iter (JArr xs) = Inr xs"
| "py_iter (JObj kv) = Inr (map (\<lambda>p. JStr (fst p)) kv)"
| "py_iter (JStr s) = Inr (map (\<lambda>c. JStr [c]) s)"
| "py_iter _ = Inl TypeError"

text \<open>Truth value of \<^verbatim>\<open>if x:\<close>.\<close>

fun truthy :: "json \<Rightarrow> bool" where
  "truthy JNull = False"
| "truthy (JBool b) = b"
| "truthy (JNum n) = (n \<noteq> 0)"
| "truthy (JStr s) = (s \<noteq> [])"
| "truthy (JArr xs) = (xs \<noteq> [])"
| "truthy (JObj kv) = (kv \<noteq> [])"

section \<open>The data classes of \<^verbatim>\<open>download_mc.py\<close>\<close>

text \<open>
  Python does not enforce the annotations of a data class: a field holds whatever JSON
  value the document had at that place, so every field is of type \<open>json\<close>. The fields
  \<^verbatim>\<open>id\<close>, \<^verbatim>\<open>type\<close> and \<^verbatim>\<open>url\<close> are prefixed, since \<open>id\<close> is a constant of HOL.
\<close>

record ManifestLatest =
  release :: json
  snapshot :: json

record ManifestVersion =
  mv_id :: json
  mv_type :: json
  mv_url :: json

record Library =
  library_name :: json
  operating_system :: json
  download_path :: json
  download_url :: json

record VersionData =
  vd_id :: json
  asset_index_url :: json
  asset_index_id :: json
  client_jar_url :: json
  server_jar_url :: json
  libraries :: "Library list"
  main_class :: json

record Manifest =
  latest :: ManifestLatest
  versions :: "ManifestVersion list"

section \<open>Parsing the version detail document (\<^verbatim>\<open>get_version_data\<close>, lines 102 to 134)\<close>

text \<open>
  Lines 109 to 111, the loop over the rules of one library entry: every rule that has
  the key \<^verbatim>\<open>os\<close> overwrites \<^verbatim>\<open>system\<close> with \<^verbatim>\<open>rule["os"].get("name", "unspecified")\<close>.
\<close>

fun scan_rules :: "json \<Rightarrow> json list \<Rightarrow> error + json" where
  "scan_rules system [] = Inr system"
| "scan_rules system (rule # rules) =
     (case py_in ''os'' rule of
        Inl e \<Rightarrow> Inl e
      | Inr False \<Rightarrow> scan_rules system rules
      | Inr True \<Rightarrow>
          (case py_subscript rule ''os'' of
             Inl e \<Rightarrow> Inl e
           | Inr os \<Rightarrow>
               (case py_get os ''name'' (JStr ''unspecified'') of
                  Inl e \<Rightarrow> Inl e
                | Inr s \<Rightarrow> scan_rules s rules)))"

text \<open>
  Lines 106 to 124, the body of the loop over the library entries: the platform of the
  entry, then its artifact; \<open>None\<close> when the entry appends no \<^verbatim>\<open>Library\<close>.
\<close>

definition parse_library :: "json \<Rightarrow> error + Library option" where
  "parse_library raw_library =
     (case py_get raw_library ''rules'' (JArr []) of
        Inl e \<Rightarrow> Inl e
      | Inr rules \<Rightarrow>
     (case py_iter rules of
        Inl e \<Rightarrow> Inl e
      | Inr rs \<Rightarrow>
     (case scan_rules (JStr ''unspecified'') rs of
        Inl e \<Rightarrow> Inl e
      | Inr system \<Rightarrow>
     (case py_get raw_library ''downloads'' (JObj []) of
        Inl e \<Rightarrow> Inl e
      | Inr downloads \<Rightarrow>
     (case py_get downloads ''artifact'' JNull of
        Inl e \<Rightarrow> Inl e
      | Inr artifact \<Rightarrow>
          if truthy artifact then
            (case py_subscript raw_library ''name'' of
               Inl e \<Rightarrow> Inl e
             | Inr name \<Rightarrow>
            (case py_subscript artifact ''path'' of
               Inl e \<Rightarrow> Inl e
             | Inr path \<Rightarrow>
            (case py_subscript artifact ''url'' of
               Inl e \<Rightarrow> Inl e
             | Inr url \<Rightarrow>
                 Inr (Some \<lparr>library_name = name, operating_system = system,
                            download_path = path, download_url = url\<rparr>))))
          else Inr None)))))"

fun parse_libraries :: "Library list \<Rightarrow> json list \<Rightarrow> error + Library list" where
  "parse_libraries libs [] = Inr libs"
| "parse_libraries libs (raw_library # raws) =
     (case parse_library raw_library of
        Inl e \<Rightarrow> Inl e
      | Inr None \<Rightarrow> parse_libraries libs raws
      | Inr (Some l) \<Rightarrow> parse_libraries (libs @ [l]) raws)"

text \<open>
  Lines 103 to 134: the libraries, then the fields of \<^verbatim>\<open>VersionData\<close> in the order the
  constructor call evaluates its arguments.
\<close>

definition version_data_of :: "json \<Rightarrow> error + VersionData" where
  "version_data_of raw_version_details =
     (case py_get raw_version_details ''libraries'' (JArr []) of
        Inl e \<Rightarrow> Inl e
      | Inr raw_libraries \<Rightarrow>
     (case py_iter raw_libraries of
        Inl e \<Rightarrow> Inl e
      | Inr raws \<Rightarrow>
     (case parse_libraries [] raws of
        Inl e \<Rightarrow> Inl e
      | Inr libs \<Rightarrow>
     (case py_subscript raw_version_details ''id'' of
        Inl e \<Rightarrow> Inl e
      | Inr i \<Rightarrow>
     (case subscripts raw_version_details [''assetIndex'', ''url''] of
        Inl e \<Rightarrow> Inl e
      | Inr aurl \<Rightarrow>
     (case subscripts raw_version_details [''assetIndex'', ''id''] of
        Inl e \<Rightarrow> Inl e
      | Inr aid \<Rightarrow>
     (case subscripts raw_version_details [''downloads'', ''client'', ''url''] of
        Inl e \<Rightarrow> Inl e
      | Inr curl \<Rightarrow>
     (case subscripts raw_version_details [''downloads'', ''server'', ''url''] of
        Inl e \<Rightarrow> Inl e
      | Inr surl \<Rightarrow>
     (case py_subscript raw_version_details ''mainClass'' of
        Inl e \<Rightarrow> Inl e
      | Inr mc \<Rightarrow>
          Inr \<lparr>vd_id = i, asset_index_url = aurl, asset_index_id = aid,
               client_jar_url = curl, server_jar_url = surl, libraries = libs,
               main_class = mc\<rparr>)))))))))"

section \<open>Paths (\<^verbatim>\<open>os.path\<close> on a POSIX host)\<close>

text \<open>
  Paths are strings, and the functions of \<^verbatim>\<open>os.path\<close> are those of \<^verbatim>\<open>posixpath\<close>, written
  after its source. \<open>path_join\<close> is \<^verbatim>\<open>os.path.join\<close> with two arguments;
  \<^verbatim>\<open>os.path.join(a, b, c)\<close> is \<open>path_join (path_join a b) c\<close>.
\<close>

definition path_join :: "string \<Rightarrow> string \<Rightarrow> string" where
  "path_join a b =
     (if b \<noteq> [] \<and> hd b = CHR ''/'' then b
      else if a = [] \<or> last a = CHR ''/'' then a @ b
      else a @ ''/'' @ b)"

definition all_slashes :: "string \<Rightarrow> bool" where
  "all_slashes s = list_all (\<lambda>c. c = CHR ''/'') s"

definition rstrip_sep :: "string \<Rightarrow> string" where
  "rstrip_sep s = rev (dropWhile (\<lambda>c. c = CHR ''/'') (rev s))"

definition lstrip_sep :: "string \<Rightarrow> string" where
  "lstrip_sep s = dropWhile (\<lambda>c. c = CHR ''/'') s"

text \<open>\<^verbatim>\<open>os.path.split\<close>: the text up to the last slash, and the text after it.\<close>

definition path_split :: "string \<Rightarrow> string \<times> string" where
  "path_split p =
     (let tail = rev (takeWhile (\<lambda>c. c \<noteq> CHR ''/'') (rev p));
          head = rev (dropWhile (\<lambda>c. c \<noteq> CHR ''/'') (rev p))
      in (if head \<noteq> [] \<and> \<not> all_slashes head then rstrip_sep head else head, tail))"

definition dirname :: "string \<Rightarrow> string" where
  "dirname p = fst (path_split p)"

text \<open>\<^verbatim>\<open>p.split("/")\<close> and \<^verbatim>\<open>"/".join(comps)\<close>.\<close>

fun split_sep :: "string \<Rightarrow> string list" where
  "split_sep [] = [[]]"
| "split_sep (c # cs) =
     (if c = CHR ''/'' then [] # split_sep cs
      else (case split_sep cs of [] \<Rightarrow> [[c]] | x # xs \<Rightarrow> (c # x) # xs))"

fun join_with :: "string \<Rightarrow> string list \<Rightarrow> string" where
  "join_with s [] = []"
| "join_with s [x] = x"
| "join_with s (x # y # ys) = x @ s @ join_with s (y # ys)"

text \<open>The loop of \<^verbatim>\<open>normpath\<close> over the components; \<open>ini\<close> says that the path is absolute.\<close>

fun norm_comps :: "bool \<Rightarrow> string list \<Rightarrow> string list \<Rightarrow> string list" where
  "norm_comps ini new_comps [] = new_comps"
| "norm_comps ini new_comps (part # comps) =
     (if part = [] \<or> part = ''.'' then norm_comps ini new_comps comps
      else if part \<noteq> ''..'' \<or> (\<not> ini \<and> new_comps = [])
                \<or> (new_comps \<noteq> [] \<and> last new_comps = ''..'')
        then norm_comps ini (new_comps @ [part]) comps
      else if new_comps \<noteq> [] then norm_comps ini (butlast new_comps) comps
      else norm_comps ini new_comps comps)"

definition normpath :: "string \<Rightarrow> string" where
  "normpath p =
     (if p = [] then ''.''
      else
        (let initial_slashes =
               (if hd p = CHR ''/''
                then (if take 2 p = ''//'' \<and> take 3 p \<noteq> ''///'' then 2 else 1 :: nat)
                else 0);
             comps = norm_comps (initial_slashes \<noteq> 0) [] (split_sep p);
             q = replicate initial_slashes (CHR ''/'') @ join_with ''/'' comps
         in if q = [] then ''.'' else q))"

text \<open>\<^verbatim>\<open>os.path.abspath\<close>, with the working directory \<^verbatim>\<open>os.getcwd()\<close> as a parameter.\<close>

definition abspath :: "string \<Rightarrow> string \<Rightarrow> string" where
  "abspath cwd p =
     normpath (if p \<noteq> [] \<and> hd p = CHR ''/'' then p else path_join cwd p)"

fun common_prefix :: "string list \<Rightarrow> string list \<Rightarrow> nat" where
  "common_prefix (x # xs) (y # ys) = (if x = y then Suc (common_prefix xs ys) else 0)"
| "common_prefix _ _ = 0"

text \<open>
  \<^verbatim>\<open>os.path.relpath(path, start)\<close>: \<^verbatim>\<open>ValueError\<close> on an empty path, else the components
  of both absolute paths are compared.
\<close>

definition relpath :: "string \<Rightarrow> string \<Rightarrow> string \<Rightarrow> error + string" where
  "relpath cwd p start =
     (if p = [] then Inl (ValueError ''no path specified'')
      else
        (let start_list = filter (\<lambda>x. x \<noteq> []) (split_sep (abspath cwd start));
             path_list = filter (\<lambda>x. x \<noteq> []) (split_sep (abspath cwd p));
             i = common_prefix start_list path_list;
             rel_list = replicate (length start_list - i) ''..'' @ drop i path_list
         in (case rel_list of
               [] \<Rightarrow> Inr ''.''
             | r # rs \<Rightarrow> Inr (foldl path_join r rs))))"

section \<open>The environment: host, network, file system, worker pool\<close>

text \<open>
  What the program reads from its host is a parameter of the model:
  \<^item> \<open>platform_system\<close> is \<^verbatim>\<open>platform.system()\<close>; \<^verbatim>\<open>platform.uname().system\<close> on line 182
    is the same value (\<^verbatim>\<open>platform.system()\<close> returns it);
  \<^item> \<open>cwd\<close> is \<^verbatim>\<open>os.getcwd()\<close>;
  \<^item> \<open>http\<close> gives what a GET of a URL yields;
  \<^item> \<open>json_loads\<close> is \<^verbatim>\<open>json.loads\<close> on the text of a body or file (\<open>None\<close> when it
    raises), \<open>json_dumps\<close> the text \<^verbatim>\<open>json.dump\<close> writes;
  \<^item> \<open>py_repr\<close> is the text \<^verbatim>\<open>str()\<close> gives a value that is not a string.
  Every theorem holds for all of them.
\<close>

text \<open>
  A response is absent when the connection fails. Otherwise it has a status code and a
  body that arrives in chunks; the flag is \<open>False\<close> when the connection breaks after
  these chunks, which makes the read of the body raise.
\<close>

datatype response = NoResponse | Response nat "string list" bool

record env =
  platform_system :: string
  cwd :: string
  http :: "string \<Rightarrow> response"
  json_loads :: "string \<Rightarrow> json option"
  json_dumps :: "json \<Rightarrow> string"
  py_repr :: "json \<Rightarrow> string"

text \<open>
  The file system maps a path, as the string the program passes, to a file with its
  content or to a directory. Two spellings of one path (\<^verbatim>\<open>a//b\<close>, \<^verbatim>\<open>a/./b\<close>) are two
  keys; the program builds every path below the output directory with \<^verbatim>\<open>os.path.join\<close>.
\<close>

datatype node = File string | Dir

type_synonym filesystem = "string \<Rightarrow> node option"

datatype outcome = Skipped | Downloaded | Failed error

text \<open>
  The trace records, in order, the calls of \<^verbatim>\<open>requests.get\<close> and \<^verbatim>\<open>session.get\<close>, the
  tasks handed to the executor and their ends, and the write of the descriptor file.
\<close>

datatype event =
    RequestsGet json
  | SessionGet json
  | Submitted json string
  | Finished json string outcome
  | WroteDescriptor string json

text \<open>
  \<open>pending\<close> is the work queue of the \<^verbatim>\<open>ThreadPoolExecutor\<close>. The workers run
  concurrently with the main thread; the model runs a queued task as one step, in
  queue order, and \<open>schedule\<close> says how many queued tasks the workers get through at
  each point where the main thread can be overtaken (after a \<^verbatim>\<open>submit\<close>, and before its
  own synchronous download). Leaving the \<^verbatim>\<open>with\<close> block runs what is left.
\<close>

record world =
  fs :: filesystem
  trace :: "event list"
  pending :: "(json \<times> string) list"
  schedule :: "nat list"

definition MANIFEST_URL :: string where
  "MANIFEST_URL = ''https://piston-meta.mojang.com/mc/game/version_manifest_v2.json''"

definition RESOURCES_BASE_URL :: string where
  "RESOURCES_BASE_URL = ''https://resources.download.minecraft.net''"

subsection \<open>File system calls\<close>

text \<open>The directory that has to exist for \<open>name\<close> to be created; \<open>None\<close> when it does.\<close>

definition parent_error :: "string \<Rightarrow> filesystem \<Rightarrow> error option" where
  "parent_error name f =
     (let ht = path_split name;
          head = (if snd ht = [] then fst (path_split (fst ht)) else fst ht)
      in if head = [] \<or> all_slashes head then None
         else (case f head of
                 None \<Rightarrow> Some FileNotFoundError
               | Some (File c) \<Rightarrow> Some NotADirectoryError
               | Some Dir \<Rightarrow> None))"

definition mkdir :: "string \<Rightarrow> filesystem \<Rightarrow> error + filesystem" where
  "mkdir name f =
     (if name = [] then Inl FileNotFoundError
      else if f name \<noteq> None then Inl FileExistsError
      else (case parent_error name f of
              Some e \<Rightarrow> Inl e
            | None \<Rightarrow> Inr (f(name \<mapsto> Dir))))"

text \<open>
  The end of \<^verbatim>\<open>os.makedirs(name, exist_ok=True)\<close>: \<^verbatim>\<open>mkdir\<close>, whose error is dropped when
  \<open>name\<close> is a directory.
\<close>

definition mkdir_exist_ok :: "string \<Rightarrow> filesystem \<Rightarrow> error option \<times> filesystem" where
  "mkdir_exist_ok name f =
     (case mkdir name f of
        Inr f' \<Rightarrow> (None, f')
      | Inl e \<Rightarrow> if f name = Some Dir then (None, f) else (Some e, f))"

definition split_twice :: "string \<Rightarrow> string \<times> string" where
  "split_twice name =
     (let ht = path_split name in if snd ht = [] then path_split (fst ht) else ht)"

text \<open>
  \<^verbatim>\<open>os.makedirs(name, exist_ok=True)\<close>, after its source: the missing ancestors first (a
  \<^verbatim>\<open>FileExistsError\<close> of that call is passed over), then \<open>name\<close> itself. The result is the
  exception raised, if any, and the file system as the call leaves it.
\<close>

function makedirs :: "string \<Rightarrow> filesystem \<Rightarrow> error option \<times> filesystem" where
  "makedirs name f =
     (if fst (split_twice name) \<noteq> [] \<and> snd (split_twice name) \<noteq> []
          \<and> f (fst (split_twice name)) = None
      then
        (case makedirs (fst (split_twice name)) f of
           (Some e, f') \<Rightarrow>
             if e = FileExistsError
             then (if snd (split_twice name) = ''.'' then (None, f') else mkdir_exist_ok name f')
             else (Some e, f')
         | (None, f') \<Rightarrow>
             if snd (split_twice name) = ''.'' then (None, f') else mkdir_exist_ok name f')
      else mkdir_exist_ok name f)"
  by pat_completeness auto
termination
proof (relation "measure (\<lambda>(name, f). length name)")
  show "wf (measure (\<lambda>(name, f). length name))" by simp
next
  fix name :: string and f :: filesystem
  assume a: "fst (split_twice name) \<noteq> [] \<and> snd (split_twice name) \<noteq> []
               \<and> f (fst (split_twice name)) = None"
  have strip: "length (rstrip_sep s) \<le> length s" for s
    by (simp add: rstrip_sep_def order_trans [OF length_dropWhile_le])
  have le: "length (fst (path_split p)) \<le> length (dropWhile (\<lambda>c. c \<noteq> CHR ''/'') (rev p))" for p
    using strip [of "rev (dropWhile (\<lambda>c. c \<noteq> CHR ''/'') (rev p))"]
    by (simp add: path_split_def Let_def)
  have weak: "length (fst (path_split p)) \<le> length p" for p
    using le [of p] length_dropWhile_le [of "\<lambda>c. c \<noteq> CHR ''/''" "rev p"] by simp
  have strict: "length (fst (path_split p)) < length p" if "snd (path_split p) \<noteq> []" for p
  proof -
    let ?t = "takeWhile (\<lambda>c. c \<noteq> CHR ''/'') (rev p)"
    let ?h = "dropWhile (\<lambda>c. c \<noteq> CHR ''/'') (rev p)"
    have "?t \<noteq> []" using that by (simp add: path_split_def Let_def)
    moreover have "length ?t + length ?h = length p"
      by (metis length_append length_rev takeWhile_dropWhile_id)
    ultimately have "length ?h < length p" by (cases ?t) auto
    then show ?thesis using le [of p] by simp
  qed
  have "length (fst (split_twice name)) < length name"
    using a strict [of name] strict [of "fst (path_split name)"] weak [of name]
    by (auto simp: split_twice_def Let_def split: if_splits)
  then show "((fst (split_twice name), f), (name, f)) \<in> measure (\<lambda>(name, f). length name)"
    by simp
qed

declare makedirs.simps [simp del]

text \<open>
  \<^verbatim>\<open>open(name, "w")\<close> and \<^verbatim>\<open>open(name, "wb")\<close>: the file is created empty, or emptied.
\<close>

definition open_write :: "string \<Rightarrow> filesystem \<Rightarrow> error + filesystem" where
  "open_write name f =
     (if name = [] then Inl FileNotFoundError
      else if f name = Some Dir \<or> snd (path_split name) = [] then Inl IsADirectoryError
      else (case parent_error name f of
              Some e \<Rightarrow> Inl e
            | None \<Rightarrow> Inr (f(name \<mapsto> File []))))"

text \<open>\<^verbatim>\<open>open(name, "r")\<close> followed by \<^verbatim>\<open>read()\<close>.\<close>

definition read_file :: "string \<Rightarrow> filesystem \<Rightarrow> error + string" where
  "read_file name f =
     (case f name of
        None \<Rightarrow> Inl FileNotFoundError
      | Some Dir \<Rightarrow> Inl IsADirectoryError
      | Some (File c) \<Rightarrow> Inr c)"

section \<open>\<^verbatim>\<open>download_file\<close> (lines 137 to 153)\<close>

text \<open>
  The source returns \<^verbatim>\<open>None\<close> or raises; the outcome says which: \<open>Skipped\<close> is the return
  on line 139, \<open>Downloaded\<close> the end of the function, \<open>Failed e\<close> the exception \<open>e\<close>.
  \<^verbatim>\<open>raise_for_status\<close> raises on the status codes 400 to 599. A body that breaks off
  has its chunks written before the exception leaves the loop on line 149.
\<close>

definition download_file :: "env \<Rightarrow> json \<Rightarrow> string \<Rightarrow> world \<Rightarrow> outcome \<times> world" where
  "download_file E url dest_path w =
     (if fs w dest_path \<noteq> None then (Skipped, w)
      else
        (case makedirs (dirname dest_path) (fs w) of
           (Some e, f1) \<Rightarrow> (Failed e, w\<lparr>fs := f1\<rparr>)
         | (None, f1) \<Rightarrow>
             (let w1 = w\<lparr>fs := f1, trace := trace w @ [SessionGet url]\<rparr> in
              (case url of
                 JStr u \<Rightarrow>
                   (case http E u of
                      NoResponse \<Rightarrow> (Failed ConnectionError, w1)
                    | Response status chunks complete \<Rightarrow>
                        if 400 \<le> status \<and> status < 600 then (Failed (HTTPError status), w1)
                        else
                          (case open_write dest_path f1 of
                             Inl e \<Rightarrow> (Failed e, w1)
                           | Inr f2 \<Rightarrow>
                               (let w2 = w1\<lparr>fs := f2(dest_path \<mapsto> File (concat chunks))\<rparr>
                                in if complete then (Downloaded, w2)
                                   else (Failed ConnectionError, w2))))
               | _ \<Rightarrow> (Failed InvalidURL, w1)))))"

section \<open>The worker pool\<close>

text \<open>
  A worker takes the first queued task and runs \<^verbatim>\<open>download_file\<close> on it; the exception of
  a task stays in its future, which nothing reads.
\<close>

fun run_pending :: "env \<Rightarrow> nat \<Rightarrow> world \<Rightarrow> world" where
  "run_pending E 0 w = w"
| "run_pending E (Suc n) w =
     (case pending w of
        [] \<Rightarrow> w
      | (url, path) # ts \<Rightarrow>
          (case download_file E url path (w\<lparr>pending := ts\<rparr>) of
             (out, w') \<Rightarrow>
               run_pending E n (w'\<lparr>trace := trace w' @ [Finished url path out]\<rparr>)))"

definition workers_run :: "env \<Rightarrow> world \<Rightarrow> world" where
  "workers_run E w =
     (case schedule w of
        [] \<Rightarrow> w
      | n # ns \<Rightarrow> run_pending E n (w\<lparr>schedule := ns\<rparr>))"

text \<open>\<^verbatim>\<open>executor.submit(download_file, url, path)\<close>.\<close>

definition submit :: "env \<Rightarrow> json \<Rightarrow> string \<Rightarrow> world \<Rightarrow> world" where
  "submit E url path w =
     workers_run E
       (w\<lparr>pending := pending w @ [(url, path)], trace := trace w @ [Submitted url path]\<rparr>)"

text \<open>The end of the \<^verbatim>\<open>with\<close> block on line 219: \<^verbatim>\<open>shutdown(wait=True)\<close>.\<close>

definition drain :: "env \<Rightarrow> world \<Rightarrow> world" where
  "drain E w = run_pending E (length (pending w)) w"

section \<open>\<^verbatim>\<open>get_manifest\<close> and \<^verbatim>\<open>get_version_data\<close> (lines 75 to 134)\<close>

text \<open>
  \<^verbatim>\<open>requests.get(url).json()\<close>: the whole body is read, the status is not looked at.
\<close>

definition requests_get_json :: "env \<Rightarrow> json \<Rightarrow> world \<Rightarrow> (error + json) \<times> world" where
  "requests_get_json E url w =
     (let w1 = w\<lparr>trace := trace w @ [RequestsGet url]\<rparr> in
      (case url of
         JStr u \<Rightarrow>
           (case http E u of
              NoResponse \<Rightarrow> (Inl ConnectionError, w1)
            | Response status chunks complete \<Rightarrow>
                if \<not> complete then (Inl ConnectionError, w1)
                else (case json_loads E (concat chunks) of
                        None \<Rightarrow> (Inl JSONDecodeError, w1)
                      | Some j \<Rightarrow> (Inr j, w1)))
       | _ \<Rightarrow> (Inl InvalidURL, w1)))"

fun manifest_versions :: "ManifestVersion list \<Rightarrow> json list \<Rightarrow> error + ManifestVersion list" where
  "manifest_versions vs [] = Inr vs"
| "manifest_versions vs (version # rest) =
     (case py_subscript version ''id'' of
        Inl e \<Rightarrow> Inl e
      | Inr i \<Rightarrow>
     (case py_subscript version ''type'' of
        Inl e \<Rightarrow> Inl e
      | Inr t \<Rightarrow>
     (case py_subscript version ''url'' of
        Inl e \<Rightarrow> Inl e
      | Inr u \<Rightarrow> manifest_versions (vs @ [\<lparr>mv_id = i, mv_type = t, mv_url = u\<rparr>]) rest)))"

definition manifest_of :: "json \<Rightarrow> error + Manifest" where
  "manifest_of data =
     (case py_subscript data ''versions'' of
        Inl e \<Rightarrow> Inl e
      | Inr raw_versions \<Rightarrow>
     (case py_iter raw_versions of
        Inl e \<Rightarrow> Inl e
      | Inr raws \<Rightarrow>
     (case manifest_versions [] raws of
        Inl e \<Rightarrow> Inl e
      | Inr vs \<Rightarrow>
     (case subscripts data [''latest'', ''release''] of
        Inl e \<Rightarrow> Inl e
      | Inr r \<Rightarrow>
     (case subscripts data [''latest'', ''snapshot''] of
        Inl e \<Rightarrow> Inl e
      | Inr sn \<Rightarrow>
          Inr \<lparr>latest = \<lparr>release = r, snapshot = sn\<rparr>, versions = vs\<rparr>)))))"

definition get_manifest :: "env \<Rightarrow> world \<Rightarrow> (error + Manifest) \<times> world" where
  "get_manifest E w =
     (case requests_get_json E (JStr MANIFEST_URL) w of
        (Inl e, w1) \<Rightarrow> (Inl e, w1)
      | (Inr data, w1) \<Rightarrow> (manifest_of data, w1))"

text \<open>Lines 95 to 100: the first version whose id equals the target, if any.\<close>

fun find_version :: "json \<Rightarrow> ManifestVersion list \<Rightarrow> ManifestVersion option" where
  "find_version target [] = None"
| "find_version target (version # rest) =
     (if mv_id version = target then Some version else find_version target rest)"

definition get_version_data :: "env \<Rightarrow> string \<Rightarrow> world \<Rightarrow> (error + VersionData) \<times> world" where
  "get_version_data E target_version_id w =
     (case get_manifest E w of
        (Inl e, w1) \<Rightarrow> (Inl e, w1)
      | (Inr manifest, w1) \<Rightarrow>
          (case find_version (JStr target_version_id) (versions manifest) of
             None \<Rightarrow> (Inl (ValueError ''Invalid version provided: not found''), w1)
           | Some raw_manifest_version_data \<Rightarrow>
               (case requests_get_json E (mv_url raw_manifest_version_data) w1 of
                  (Inl e, w2) \<Rightarrow> (Inl e, w2)
                | (Inr raw_version_details, w2) \<Rightarrow>
                    (version_data_of raw_version_details, w2))))"

section \<open>\<^verbatim>\<open>download_minecraft_structure\<close> (lines 156 to 213)\<close>

text \<open>Lines 178 to 183: the three tests that skip a library on this host.\<close>

definition skipped_on_host :: "env \<Rightarrow> Library \<Rightarrow> bool" where
  "skipped_on_host E library =
     ((operating_system library = JStr ''windows'' \<and> platform_system E \<noteq> ''Windows'')
      \<or> (operating_system library = JStr ''linux'' \<and> platform_system E \<noteq> ''Linux'')
      \<or> (operating_system library = JStr ''osx'' \<and> platform_system E \<noteq> ''Darwin''))"

text \<open>
  Lines 177 to 187, the loop over the libraries. \<^verbatim>\<open>os.path.join\<close> raises \<^verbatim>\<open>TypeError\<close> on a
  download path that is not a string.
\<close>

fun libraries_loop ::
  "env \<Rightarrow> string \<Rightarrow> string \<Rightarrow> Library list \<Rightarrow> string list \<Rightarrow> world
     \<Rightarrow> (error + string list) \<times> world" where
  "libraries_loop E output_dir libraries_directory [] classpath w = (Inr classpath, w)"
| "libraries_loop E output_dir libraries_directory (library # rest) classpath w =
     (if skipped_on_host E library
      then libraries_loop E output_dir libraries_directory rest classpath w
      else
        (case download_path library of
           JStr p \<Rightarrow>
             (let dp = path_join libraries_directory p;
                  w1 = submit E (download_url library) dp w
              in (case relpath (cwd E) dp output_dir of
                    Inl e \<Rightarrow> (Inl e, w1)
                  | Inr r \<Rightarrow>
                      libraries_loop E output_dir libraries_directory rest (classpath @ [r]) w1))
         | _ \<Rightarrow> (Inl TypeError, w)))"

text \<open>\<^verbatim>\<open>str(x)\<close>, as an f-string applies it.\<close>

definition py_str :: "env \<Rightarrow> json \<Rightarrow> string" where
  "py_str E x = (case x of JStr s \<Rightarrow> s | _ \<Rightarrow> py_repr E x)"

text \<open>
  Lines 197 to 201, the loop over the values of the asset index. A hash that is not a
  string makes the slice or \<^verbatim>\<open>os.path.join\<close> raise.
\<close>

fun objects_loop :: "env \<Rightarrow> string \<Rightarrow> json list \<Rightarrow> world \<Rightarrow> error option \<times> world" where
  "objects_loop E objects_directory [] w = (None, w)"
| "objects_loop E objects_directory (object_data # rest) w =
     (case py_subscript object_data ''hash'' of
        Inl e \<Rightarrow> (Some e, w)
      | Inr (JStr h) \<Rightarrow>
          (let url = RESOURCES_BASE_URL @ ''/'' @ take 2 h @ ''/'' @ h;
               full_path = path_join (path_join objects_directory (take 2 h)) h
           in objects_loop E objects_directory rest (submit E (JStr url) full_path w))
      | Inr _ \<Rightarrow> (Some TypeError, w))"

text \<open>\<^verbatim>\<open>d.values()\<close>.\<close>

fun py_values :: "json \<Rightarrow> error + json list" where
  "py_values (JObj kv) = Inr (map snd kv)"
| "py_values _ = Inl AttributeError"

text \<open>Lines 194 and 195: the asset index is read back from the disk.\<close>

definition read_asset_index :: "env \<Rightarrow> string \<Rightarrow> filesystem \<Rightarrow> error + json list" where
  "read_asset_index E asset_index_path f =
     (case read_file asset_index_path f of
        Inl e \<Rightarrow> Inl e
      | Inr c \<Rightarrow>
     (case json_loads E c of
        None \<Rightarrow> Inl JSONDecodeError
      | Some j \<Rightarrow>
     (case py_subscript j ''objects'' of
        Inl e \<Rightarrow> Inl e
      | Inr objs \<Rightarrow> py_values objs)))"

text \<open>Lines 203 to 213: the descriptor file \<^verbatim>\<open>nelius.meta\<close>.\<close>

definition descriptor :: "string \<Rightarrow> VersionData \<Rightarrow> string list \<Rightarrow> string \<Rightarrow> json" where
  "descriptor mc_version version_data classpath assets_rel =
     JObj [(''version'', JStr mc_version),
           (''asset_index_id'', asset_index_id version_data),
           (''classpath_relative'', JArr (map JStr classpath)),
           (''main_class'', main_class version_data),
           (''assets_dir'', JStr assets_rel)]"

definition write_descriptor ::
  "env \<Rightarrow> string \<Rightarrow> string \<Rightarrow> VersionData \<Rightarrow> string list \<Rightarrow> world \<Rightarrow> error option \<times> world" where
  "write_descriptor E output_dir mc_version version_data classpath w =
     (let meta_path = path_join output_dir ''nelius.meta'' in
      (case open_write meta_path (fs w) of
         Inl e \<Rightarrow> (Some e, w)
       | Inr f1 \<Rightarrow>
           (case relpath (cwd E) (path_join output_dir ''assets'') output_dir of
              Inl e \<Rightarrow> (Some e, w\<lparr>fs := f1\<rparr>)
            | Inr assets_rel \<Rightarrow>
                (let d = descriptor mc_version version_data classpath assets_rel
                 in (None, w\<lparr>fs := f1(meta_path \<mapsto> File (json_dumps E d)),
                              trace := trace w @ [WroteDescriptor meta_path d]\<rparr>)))))"

text \<open>Lines 159 to 168: the four \<^verbatim>\<open>os.makedirs\<close> calls, in order.\<close>

fun makedirs_all :: "string list \<Rightarrow> filesystem \<Rightarrow> error option \<times> filesystem" where
  "makedirs_all [] f = (None, f)"
| "makedirs_all (d # ds) f =
     (case makedirs d f of
        (Some e, f') \<Rightarrow> (Some e, f')
      | (None, f') \<Rightarrow> makedirs_all ds f')"

definition download_minecraft_structure ::
  "env \<Rightarrow> string \<Rightarrow> string \<Rightarrow> VersionData \<Rightarrow> world \<Rightarrow> error option \<times> world" where
  "download_minecraft_structure E output_dir mc_version version_data w =
     (let libraries_directory = path_join output_dir ''libraries'';
          assets_directory = path_join output_dir ''assets'';
          objects_directory = path_join assets_directory ''objects'';
          indexes_directory = path_join assets_directory ''indexes''
      in
      (case makedirs_all
              [output_dir, libraries_directory, objects_directory, indexes_directory] (fs w) of
         (Some e, f1) \<Rightarrow> (Some e, w\<lparr>fs := f1\<rparr>)
       | (None, f1) \<Rightarrow>
      (let w1 = submit E (client_jar_url version_data) (path_join output_dir ''client.jar'')
                  (w\<lparr>fs := f1\<rparr>)
       in
      (case libraries_loop E output_dir libraries_directory (libraries version_data) [] w1 of
         (Inl e, w2) \<Rightarrow> (Some e, w2)
       | (Inr classpath, w2) \<Rightarrow>
      (let asset_index_path =
             path_join indexes_directory (py_str E (asset_index_id version_data) @ ''.json'')
       in
      (case download_file E (asset_index_url version_data) asset_index_path (workers_run E w2) of
         (Failed e, w3) \<Rightarrow> (Some e, w3)
       | (_, w3) \<Rightarrow>
      (case read_asset_index E asset_index_path (fs w3) of
         Inl e \<Rightarrow> (Some e, w3)
       | Inr asset_index_objects \<Rightarrow>
      (case objects_loop E objects_directory asset_index_objects w3 of
         (Some e, w4) \<Rightarrow> (Some e, w4)
       | (None, w4) \<Rightarrow>
           write_descriptor E output_dir mc_version version_data classpath w4))))))))"

section \<open>The program (lines 29 to 33 and 216 to 222)\<close>

text \<open>
  The two assertions on the arguments, the version data, then the downloads inside the
  \<^verbatim>\<open>with\<close> block, whose end waits for the queued tasks whether or not the block raised.
  The result is the exception that ends the program, if any.
\<close>

definition main :: "env \<Rightarrow> string \<Rightarrow> string \<Rightarrow> world \<Rightarrow> error option \<times> world" where
  "main E output_dir mc_version w =
     (if output_dir = [] \<or> mc_version = [] then (Some AssertionError, w)
      else
        (case get_version_data E mc_version w of
           (Inl e, w1) \<Rightarrow> (Some e, w1)
         | (Inr version_data, w1) \<Rightarrow>
             (case download_minecraft_structure E output_dir mc_version version_data
                     (w1\<lparr>pending := []\<rparr>) of
                (r, w2) \<Rightarrow> (r, drain E w2))))"

section \<open>\<^verbatim>\<open>launch_minecraft\<close> (\<^verbatim>\<open>nelius_launch.py\<close>, lines 18 to 57)\<close>

text \<open>Lines 25 to 28: the class path, a list, before it is joined.\<close>

fun classpath_loop :: "string \<Rightarrow> string \<Rightarrow> json list \<Rightarrow> string list \<Rightarrow> error + string list" where
  "classpath_loop wd game_dir [] classpath = Inr classpath"
| "classpath_loop wd game_dir (path # rest) classpath =
     (case path of
        JStr p \<Rightarrow> classpath_loop wd game_dir rest (classpath @ [abspath wd (path_join game_dir p)])
      | _ \<Rightarrow> Inl TypeError)"

definition launch_classpath :: "env \<Rightarrow> string \<Rightarrow> json \<Rightarrow> error + string list" where
  "launch_classpath E nelius_meta_dir meta =
     (let game_dir = dirname (abspath (cwd E) nelius_meta_dir) in
      (case py_subscript meta ''classpath_relative'' of
         Inl e \<Rightarrow> Inl e
       | Inr paths \<Rightarrow>
      (case py_iter paths of
         Inl e \<Rightarrow> Inl e
       | Inr ps \<Rightarrow>
      (case classpath_loop (cwd E) game_dir ps [] of
         Inl e \<Rightarrow> Inl e
       | Inr classpath \<Rightarrow>
           Inr (classpath @ [abspath (cwd E) (path_join game_dir ''client.jar'')])))))"

text \<open>
  The command handed to \<^verbatim>\<open>subprocess.run\<close>; the fields of the descriptor stand in it as
  they were read.
\<close>

definition launch_minecraft :: "env \<Rightarrow> string \<Rightarrow> world \<Rightarrow> error + json list" where
  "launch_minecraft E nelius_meta_dir w =
     (case read_file nelius_meta_dir (fs w) of
        Inl e \<Rightarrow> Inl e
      | Inr c \<Rightarrow>
     (case json_loads E c of
        None \<Rightarrow> Inl JSONDecodeError
      | Some meta \<Rightarrow>
     (case launch_classpath E nelius_meta_dir meta of
        Inl e \<Rightarrow> Inl e
      | Inr classpath \<Rightarrow>
     (let separator = (if platform_system E = ''Windows'' then '';'' else '':'');
          game_dir = dirname (abspath (cwd E) nelius_meta_dir)
      in
     (case py_subscript meta ''main_class'' of
        Inl e \<Rightarrow> Inl e
      | Inr mc \<Rightarrow>
     (case py_subscript meta ''version'' of
        Inl e \<Rightarrow> Inl e
      | Inr v \<Rightarrow>
     (case py_subscript meta ''assets_dir'' of
        Inl e \<Rightarrow> Inl e
      | Inr ad \<Rightarrow>
     (case py_subscript meta ''asset_index_id'' of
        Inl e \<Rightarrow> Inl e
      | Inr ai \<Rightarrow>
          Inr [JStr ''java'', JStr ''-Xmx2G'', JStr ''-cp'',
               JStr (join_with separator classpath), mc,
               JStr ''--username'', JStr ''nelius'', JStr ''--version'', v,
               JStr ''--gameDir'', JStr game_dir, JStr ''--assetsDir'', ad,
               JStr ''--assetIndex'', ai, JStr ''--uuid'', JStr ''0'',
               JStr ''--accessToken'', JStr ''0'']))))))))"

section \<open>Vocabulary of the properties\<close>

subsection \<open>Platform rules\<close>

text \<open>
  A rule takes part in the scan when it has the key \<^verbatim>\<open>os\<close>; the name it gives is the
  \<^verbatim>\<open>name\<close> of its \<^verbatim>\<open>os\<close> object, and \<^verbatim>\<open>unspecified\<close> when that object has none. A rule
  list is well formed when every rule is an object whose \<^verbatim>\<open>os\<close>, if present, is an object.
\<close>

definition has_os :: "json \<Rightarrow> bool" where
  "has_os rule = (case rule of JObj kv \<Rightarrow> map_of kv ''os'' \<noteq> None | _ \<Rightarrow> False)"

definition os_name_or_default :: "json \<Rightarrow> json" where
  "os_name_or_default rule =
     (case rule of
        JObj kv \<Rightarrow>
          (case map_of kv ''os'' of
             Some (JObj os) \<Rightarrow>
               (case map_of os ''name'' of Some n \<Rightarrow> n | None \<Rightarrow> JStr ''unspecified'')
           | _ \<Rightarrow> JStr ''unspecified'')
      | _ \<Rightarrow> JStr ''unspecified'')"

definition rule_ok :: "json \<Rightarrow> bool" where
  "rule_ok rule =
     (case rule of
        JObj kv \<Rightarrow>
          (case map_of kv ''os'' of None \<Rightarrow> True | Some (JObj os) \<Rightarrow> True | Some _ \<Rightarrow> False)
      | _ \<Rightarrow> False)"

text \<open>
  The reading of the specification: the name of the last rule that specifies an OS
  name, and the default when no rule specifies one.
\<close>

definition specifies_os_name :: "json \<Rightarrow> bool" where
  "specifies_os_name rule =
     (case rule of
        JObj kv \<Rightarrow>
          (case map_of kv ''os'' of Some (JObj os) \<Rightarrow> map_of os ''name'' \<noteq> None | _ \<Rightarrow> False)
      | _ \<Rightarrow> False)"

definition spec_platform :: "json list \<Rightarrow> json" where
  "spec_platform rules =
     (case filter specifies_os_name rules of
        [] \<Rightarrow> JStr ''unspecified''
      | r # rs \<Rightarrow> os_name_or_default (last (r # rs)))"

subsection \<open>Library entries without an artifact\<close>

text \<open>
  An entry lacks the artifact descriptor when the lookup
  \<^verbatim>\<open>raw_library["downloads"]["artifact"]\<close> finds nothing. \<open>detail_with_libraries kv raws\<close>
  is a detail document whose library list is \<open>raws\<close> and whose other fields are \<open>kv\<close>.
\<close>

definition lacks_artifact :: "json \<Rightarrow> bool" where
  "lacks_artifact raw_library =
     (case subscripts raw_library [''downloads'', ''artifact''] of
        Inl e \<Rightarrow> True
      | Inr a \<Rightarrow> False)"

definition detail_with_libraries :: "(string \<times> json) list \<Rightarrow> json list \<Rightarrow> json" where
  "detail_with_libraries kv raws = JObj ((''libraries'', JArr raws) # kv)"

subsection \<open>Example documents\<close>

definition ex_fields :: "(string \<times> json) list" where
  "ex_fields =
     [(''id'', JStr ''1.20''), (''mainClass'', JStr ''net.minecraft.client.main.Main''),
      (''assetIndex'', JObj [(''id'', JStr ''abc''), (''url'', JStr ''https://h/abc.json'')]),
      (''downloads'', JObj [(''client'', JObj [(''url'', JStr ''https://h/client.jar'')]),
                           (''server'', JObj [(''url'', JStr ''https://h/server.jar'')])])]"

definition ex_fields_no_server :: "(string \<times> json) list" where
  "ex_fields_no_server =
     [(''id'', JStr ''1.20''), (''mainClass'', JStr ''net.minecraft.client.main.Main''),
      (''assetIndex'', JObj [(''id'', JStr ''abc''), (''url'', JStr ''https://h/abc.json'')]),
      (''downloads'', JObj [(''client'', JObj [(''url'', JStr ''https://h/client.jar'')])])]"

definition ex_lib_linux :: json where
  "ex_lib_linux =
     JObj [(''name'', JStr ''org.lwjgl:lwjgl:3.3.1''),
           (''rules'', JArr [JObj [(''action'', JStr ''allow''),
                                  (''os'', JObj [(''name'', JStr ''linux'')])]]),
           (''downloads'', JObj [(''artifact'',
              JObj [(''path'', JStr ''org/lwjgl/lwjgl.jar''),
                    (''url'', JStr ''https://h/lwjgl.jar'')])])]"

definition ex_lib_any :: json where
  "ex_lib_any =
     JObj [(''name'', JStr ''com.mojang:brigadier:1.0''),
           (''downloads'', JObj [(''artifact'',
              JObj [(''path'', JStr ''com/mojang/brigadier.jar''),
                    (''url'', JStr ''https://h/brigadier.jar'')])])]"

definition ex_lib_no_artifact :: json where
  "ex_lib_no_artifact =
     JObj [(''name'', JStr ''org.lwjgl:lwjgl-natives:3.3.1''),
           (''downloads'', JObj [(''classifiers'',
              JObj [(''natives-linux'', JObj [(''path'', JStr ''org/lwjgl/natives.jar''),
                                             (''url'', JStr ''https://h/natives.jar'')])])])]"

definition ex_version_data :: VersionData where
  "ex_version_data =
     \<lparr>vd_id = JStr ''1.20'', asset_index_url = JStr ''https://h/abc.json'',
        asset_index_id = JStr ''abc'', client_jar_url = JStr ''https://h/client.jar'',
        server_jar_url = JStr ''https://h/server.jar'',
        libraries =
          [\<lparr>library_name = JStr ''org.lwjgl:lwjgl:3.3.1'',
              operating_system = JStr ''linux'',
              download_path = JStr ''org/lwjgl/lwjgl.jar'',
              download_url = JStr ''https://h/lwjgl.jar''\<rparr>,
           \<lparr>library_name = JStr ''com.mojang:brigadier:1.0'',
              operating_system = JStr ''unspecified'',
              download_path = JStr ''com/mojang/brigadier.jar'',
              download_url = JStr ''https://h/brigadier.jar''\<rparr>],
        main_class = JStr ''net.minecraft.client.main.Main''\<rparr>"

subsection \<open>Effects on the file system and the trace\<close>

definition adds_dirs :: "filesystem \<Rightarrow> filesystem \<Rightarrow> bool" where
  "adds_dirs f f' = (\<forall>q. f' q = f q \<or> (f q = None \<and> f' q = Some Dir))"

definition keeps :: "filesystem \<Rightarrow> filesystem \<Rightarrow> bool" where
  "keeps f f' = (\<forall>q. f q \<noteq> None \<longrightarrow> f' q = f q)"

fun is_worker_event :: "event \<Rightarrow> bool" where
  "is_worker_event (SessionGet u) = True"
| "is_worker_event (Finished u p out) = True"
| "is_worker_event _ = False"

fun is_write :: "event \<Rightarrow> bool" where
  "is_write (WroteDescriptor p d) = True"
| "is_write _ = False"

definition extends_by :: "(event \<Rightarrow> bool) \<Rightarrow> world \<Rightarrow> world \<Rightarrow> bool" where
  "extends_by P w w' = (\<exists>evs. trace w' = trace w @ evs \<and> list_all P evs)"

definition libraries_dir :: "string \<Rightarrow> string" where
  "libraries_dir output_dir = path_join output_dir ''libraries''"

definition assets_dir :: "string \<Rightarrow> string" where
  "assets_dir output_dir = path_join output_dir ''assets''"

definition objects_dir :: "string \<Rightarrow> string" where
  "objects_dir output_dir = path_join (path_join output_dir ''assets'') ''objects''"

definition indexes_dir :: "string \<Rightarrow> string" where
  "indexes_dir output_dir = path_join (path_join output_dir ''assets'') ''indexes''"

definition index_path :: "env \<Rightarrow> string \<Rightarrow> VersionData \<Rightarrow> string" where
  "index_path E output_dir vd =
     path_join (indexes_dir output_dir) (py_str E (asset_index_id vd) @ ''.json'')"

definition client_path :: "string \<Rightarrow> string" where
  "client_path output_dir = path_join output_dir ''client.jar''"

definition meta_path :: "string \<Rightarrow> string" where
  "meta_path output_dir = path_join output_dir ''nelius.meta''"

fun is_submit :: "event \<Rightarrow> bool" where
  "is_submit (Submitted u p) = True"
| "is_submit _ = False"

definition is_task_event :: "event \<Rightarrow> bool" where
  "is_task_event e = (is_submit e \<or> is_worker_event e)"

definition the_str :: "json \<Rightarrow> string" where
  "the_str x = (case x of JStr s \<Rightarrow> s | _ \<Rightarrow> [])"

definition library_task :: "string \<Rightarrow> Library \<Rightarrow> event" where
  "library_task output_dir l =
     Submitted (download_url l)
       (path_join (libraries_dir output_dir) (the_str (download_path l)))"

definition classpath_entry :: "env \<Rightarrow> string \<Rightarrow> Library \<Rightarrow> error + string" where
  "classpath_entry E output_dir l =
     (case download_path l of
        JStr p \<Rightarrow> relpath (cwd E) (path_join (libraries_dir output_dir) p) output_dir
      | _ \<Rightarrow> Inl TypeError)"

definition hash_of :: "json \<Rightarrow> string" where
  "hash_of object_data =
     (case py_subscript object_data ''hash'' of Inr (JStr h) \<Rightarrow> h | _ \<Rightarrow> [])"

definition object_task :: "string \<Rightarrow> string \<Rightarrow> event" where
  "object_task output_dir h =
     Submitted (JStr (RESOURCES_BASE_URL @ ''/'' @ take 2 h @ ''/'' @ h))
       (path_join (path_join (objects_dir output_dir) (take 2 h)) h)"

fun is_request :: "event \<Rightarrow> bool" where
  "is_request (RequestsGet u) = True"
| "is_request _ = False"

text \<open>
  A host for the examples: a Linux machine, a manifest with one snapshot and one
  release, the detail document of the release with three library entries, an asset index
  with two objects, of which the second is answered with status 404. The text of a
  document stands for the document (\<open>ex_loads\<close>), and every serialised descriptor is the
  text \<^verbatim>\<open>META\<close>.
\<close>

definition ex_manifest :: json where
  "ex_manifest =
     JObj [(''latest'', JObj [(''release'', JStr ''1.20''), (''snapshot'', JStr ''23w31a'')]),
           (''versions'',
            JArr [JObj [(''id'', JStr ''23w31a''), (''type'', JStr ''snapshot''),
                        (''url'', JStr ''https://h/23w31a.json'')],
                  JObj [(''id'', JStr ''1.20''), (''type'', JStr ''release''),
                        (''url'', JStr ''https://h/1.20.json'')]])]"

definition ex_detail :: json where
  "ex_detail = detail_with_libraries ex_fields [ex_lib_linux, ex_lib_no_artifact, ex_lib_any]"

definition ex_index :: json where
  "ex_index =
     JObj [(''objects'',
        JObj [(''icons/icon.png'', JObj [(''hash'', JStr ''abc123''), (''size'', JNum 3)]),
              (''lang/en.json'', JObj [(''hash'', JStr ''ffee00''), (''size'', JNum 5)])])]"

definition ex_descriptor :: json where
  "ex_descriptor =
     JObj [(''version'', JStr ''1.20''), (''asset_index_id'', JStr ''abc''),
           (''classpath_relative'',
            JArr [JStr ''libraries/org/lwjgl/lwjgl.jar'',
                  JStr ''libraries/com/mojang/brigadier.jar'']),
           (''main_class'', JStr ''net.minecraft.client.main.Main''),
           (''assets_dir'', JStr ''assets'')]"

definition ex_http :: "string \<Rightarrow> response" where
  "ex_http u =
     (if u = MANIFEST_URL then Response 200 [''M''] True
      else if u = ''https://h/1.20.json'' then Response 200 [''D''] True
      else if u = ''https://h/abc.json'' then Response 200 [''I''] True
      else if u = ''https://resources.download.minecraft.net/ff/ffee00''
        then Response 404 [''Not Found''] True
      else Response 200 [''da'', ''ta''] True)"

definition ex_loads :: "string \<Rightarrow> json option" where
  "ex_loads s =
     (if s = ''M'' then Some ex_manifest
      else if s = ''D'' then Some ex_detail
      else if s = ''I'' then Some ex_index
      else if s = ''META'' then Some ex_descriptor
      else None)"

definition ex_env :: env where
  "ex_env =
     \<lparr>platform_system = ''Linux'', cwd = ''/home/user'', http = ex_http,
        json_loads = ex_loads, json_dumps = (\<lambda>j. ''META''), py_repr = (\<lambda>j. ''?'')\<rparr>"

definition ex_world :: world where
  "ex_world = \<lparr>fs = Map.empty, trace = [], pending = [], schedule = []\<rparr>"

subsection \<open>Platform constraints\<close>

text \<open>
  The values the annotation of \<^verbatim>\<open>Library.operating_system\<close> declares, and the test that a
  constraint names the host.
\<close>

definition declared_constraint :: "json \<Rightarrow> bool" where
  "declared_constraint os =
     (os = JStr ''windows'' \<or> os = JStr ''linux'' \<or> os = JStr ''osx''
      \<or> os = JStr ''unspecified'')"

definition matches_host :: "env \<Rightarrow> json \<Rightarrow> bool" where
  "matches_host E os =
     ((os = JStr ''windows'' \<and> platform_system E = ''Windows'')
      \<or> (os = JStr ''linux'' \<and> platform_system E = ''Linux'')
      \<or> (os = JStr ''osx'' \<and> platform_system E = ''Darwin''))"

definition applies_on_host :: "env \<Rightarrow> Library \<Rightarrow> bool" where
  "applies_on_host E l =
     (operating_system l = JStr ''unspecified'' \<or> matches_host E (operating_system l))"

text \<open>The directory of the descriptor file, as the launcher computes it.\<close>

definition game_dir :: "env \<Rightarrow> string \<Rightarrow> string" where
  "game_dir E nelius_meta_dir = dirname (abspath (cwd E) nelius_meta_dir)"

definition ex_lib_windows :: Library where
  "ex_lib_windows =
     \<lparr>library_name = JStr ''org.lwjgl:lwjgl-windows:3.3.1'',
        operating_system = JStr ''windows'',
        download_path = JStr ''org/lwjgl/lwjgl-windows.jar'',
        download_url = JStr ''https://h/lwjgl-windows.jar''\<rparr>"

definition ex_lib_freebsd :: Library where
  "ex_lib_freebsd =
     \<lparr>library_name = JStr ''org.lwjgl:lwjgl-freebsd:3.3.1'',
        operating_system = JStr ''freebsd'',
        download_path = JStr ''org/lwjgl/lwjgl-freebsd.jar'',
        download_url = JStr ''https://h/lwjgl-freebsd.jar''\<rparr>"

definition ex_mixed_data :: VersionData where
  "ex_mixed_data = ex_version_data\<lparr>libraries := ex_lib_windows # libraries ex_version_data\<rparr>"

definition ex_freebsd_data :: VersionData where
  "ex_freebsd_data = ex_version_data\<lparr>libraries := [ex_lib_windows, ex_lib_freebsd]\<rparr>"

subsection \<open>Content hashes\<close>

text \<open>A content hash is a non-empty string of lower-case hexadecimal digits.\<close>

definition is_hex_hash :: "string \<Rightarrow> bool" where
  "is_hex_hash h = (h \<noteq> [] \<and> list_all (\<lambda>c. c \<in> set ''0123456789abcdef'') h)"

definition ex_manifest_parsed :: Manifest where
  "ex_manifest_parsed =
     \<lparr>latest = \<lparr>release = JStr ''1.20'', snapshot = JStr ''23w31a''\<rparr>,
        versions =
          [\<lparr>mv_id = JStr ''23w31a'', mv_type = JStr ''snapshot'',
              mv_url = JStr ''https://h/23w31a.json''\<rparr>,
           \<lparr>mv_id = JStr ''1.20'', mv_type = JStr ''release'',
              mv_url = JStr ''https://h/1.20.json''\<rparr>]\<rparr>"

subsection \<open>Download requests and populated directories\<close>

fun is_session_get :: "event \<Rightarrow> bool" where
  "is_session_get (SessionGet u) = True"
| "is_session_get _ = False"

text \<open>
  The paths \<^verbatim>\<open>download_file\<close> is called with in a run: the client, the libraries that
  are not skipped, the asset index, and the objects of the asset index found on disk.
\<close>

definition object_path :: "string \<Rightarrow> string \<Rightarrow> string" where
  "object_path output_dir h = path_join (path_join (objects_dir output_dir) (take 2 h)) h"

definition library_path :: "string \<Rightarrow> Library \<Rightarrow> string" where
  "library_path output_dir l =
     path_join (libraries_dir output_dir) (the_str (download_path l))"

definition planned_paths :: "env \<Rightarrow> string \<Rightarrow> VersionData \<Rightarrow> filesystem \<Rightarrow> string list" where
  "planned_paths E output_dir vd f =
     client_path output_dir
     # map (library_path output_dir) (filter (\<lambda>l. \<not> skipped_on_host E l) (libraries vd))
     @ index_path E output_dir vd
     # (case read_asset_index E (index_path E output_dir vd) f of
          Inl e \<Rightarrow> []
        | Inr ods \<Rightarrow> map (\<lambda>od. object_path output_dir (hash_of od)) ods)"

text \<open>
  The target directory is fully populated for a requested version when every one of
  these paths exists.
\<close>

definition fully_populated :: "env \<Rightarrow> string \<Rightarrow> string \<Rightarrow> world \<Rightarrow> bool" where
  "fully_populated E output_dir v w =
     (case get_version_data E v w of
        (Inl e, w1) \<Rightarrow> True
      | (Inr vd, w1) \<Rightarrow> list_all (\<lambda>p. fs w p \<noteq> None) (planned_paths E output_dir vd (fs w)))"

definition quiet :: "world \<Rightarrow> bool" where
  "quiet w = list_all (\<lambda>t. fs w (snd t) \<noteq> None) (pending w)"

definition calm :: "world \<Rightarrow> world \<Rightarrow> bool" where
  "calm w w' = (fs w' = fs w \<and> extends_by (\<lambda>e. \<not> is_session_get e) w w' \<and> quiet w')"

text \<open>
  A target directory as a complete run on the example host leaves it, with every file
  of the release in place (some of them with other content), and workers that get
  through some tasks while the main thread submits.
\<close>

definition ex_populated_world :: world where
  "ex_populated_world =
     \<lparr>fs = map_of
             [(''out'', Dir), (''out/libraries'', Dir), (''out/assets'', Dir),
              (''out/assets/objects'', Dir), (''out/assets/indexes'', Dir),
              (''out/client.jar'', File ''data''),
              (''out/libraries/org/lwjgl/lwjgl.jar'', File ''data''),
              (''out/libraries/com/mojang/brigadier.jar'', File []),
              (''out/assets/indexes/abc.json'', File ''I''),
              (''out/assets/objects/ab/abc123'', File ''data''),
              (''out/assets/objects/ff/ffee00'', File ''da'')],
        trace = [], pending = [], schedule = [1, 0, 2]\<rparr>"

definition ex_env_304 :: env where
  "ex_env_304 = ex_env\<lparr>http := (\<lambda>u. Response 304 [] True)\<rparr>"

section \<open>Properties of the version detail parser\<close>

lemma in_keys_iff: "(k \<in> set (map fst kv)) = (map_of kv k \<noteq> None)"
  by (simp add: map_of_eq_None_iff)

lemma scan_rules_closed:
  "list_all rule_ok rs \<Longrightarrow>
   scan_rules s rs =
     Inr (case filter has_os rs of [] \<Rightarrow> s | r # rs' \<Rightarrow> os_name_or_default (last (r # rs')))"
proof (induction rs arbitrary: s)
  case Nil
  then show ?case by simp
next
  case (Cons r rs)
  then obtain kv where r: "r = JObj kv" by (cases r) (auto simp: rule_ok_def)
  show ?case
  proof (cases "map_of kv ''os''")
    case None
    then have "\<not> has_os r" by (simp add: r has_os_def)
    moreover have "py_in ''os'' r = Inr False"
      using None by (simp add: r in_keys_iff del: set_map)
    ultimately show ?thesis using Cons by simp
  next
    case (Some v)
    then obtain os where v: "v = JObj os"
      using Cons.prems by (cases v) (auto simp: rule_ok_def r)
    have h: "has_os r" using Some by (simp add: r has_os_def)
    have p: "py_in ''os'' r = Inr True"
      using Some by (simp add: r in_keys_iff del: set_map)
    have "scan_rules s (r # rs) = scan_rules (os_name_or_default r) rs"
      using p Some v by (simp add: r os_name_or_default_def split: option.splits)
    also have "\<dots> = Inr (case filter has_os rs of [] \<Rightarrow> os_name_or_default r
                          | r' # rs' \<Rightarrow> os_name_or_default (last (r' # rs')))"
      using Cons by simp
    finally show ?thesis using h by (simp split: list.splits)
  qed
qed

text \<open>
  C2 (as amended). For a library entry with a well-formed rule list that yields a
  \<^verbatim>\<open>Library\<close>, the platform constraint is the name given by the last rule that has the
  key \<^verbatim>\<open>os\<close>: the \<^verbatim>\<open>name\<close> of its \<^verbatim>\<open>os\<close> object, or \<^verbatim>\<open>unspecified\<close> when that object has
  no name; it is \<^verbatim>\<open>unspecified\<close> when no rule has the key \<^verbatim>\<open>os\<close>.
\<close>

theorem platform_is_last_os_rule:
  assumes "py_get raw_library ''rules'' (JArr []) = Inr (JArr rs)"
    and "list_all rule_ok rs"
    and "parse_library raw_library = Inr (Some l)"
  shows "operating_system l =
           (case filter has_os rs of
              [] \<Rightarrow> JStr ''unspecified''
            | r # rs' \<Rightarrow> os_name_or_default (last (r # rs')))"
proof -
  have "scan_rules (JStr ''unspecified'') rs =
          Inr (case filter has_os rs of [] \<Rightarrow> JStr ''unspecified''
               | r # rs' \<Rightarrow> os_name_or_default (last (r # rs')))"
    using assms(2) by (rule scan_rules_closed)
  with assms(1,3) show ?thesis
    by (auto simp: parse_library_def split: sum.splits if_splits)
qed

text \<open>
  The rule list of the specification's example, \<^verbatim>\<open>linux\<close> then \<^verbatim>\<open>windows\<close>, yields
  \<^verbatim>\<open>windows\<close>.
\<close>

theorem platform_is_last_os_rule_witness:
  "operating_system
     \<lparr>library_name = JStr ''lib'', operating_system = JStr ''windows'',
        download_path = JStr ''a/lib.jar'', download_url = JStr ''https://h/lib.jar''\<rparr>
   = JStr ''windows''
   \<and> parse_library
       (JObj [(''name'', JStr ''lib''),
              (''rules'', JArr [JObj [(''os'', JObj [(''name'', JStr ''linux'')])],
                               JObj [(''os'', JObj [(''name'', JStr ''windows'')])]]),
              (''downloads'', JObj [(''artifact'',
                 JObj [(''path'', JStr ''a/lib.jar''), (''url'', JStr ''https://h/lib.jar'')])])])
     = Inr (Some \<lparr>library_name = JStr ''lib'', operating_system = JStr ''windows'',
                  download_path = JStr ''a/lib.jar'', download_url = JStr ''https://h/lib.jar''\<rparr>)"
proof -
  let ?rs = "[JObj [(''os'', JObj [(''name'', JStr ''linux'')])],
              JObj [(''os'', JObj [(''name'', JStr ''windows'')])]]"
  let ?raw = "JObj [(''name'', JStr ''lib''), (''rules'', JArr ?rs),
              (''downloads'', JObj [(''artifact'',
                 JObj [(''path'', JStr ''a/lib.jar''), (''url'', JStr ''https://h/lib.jar'')])])]"
  let ?l = "\<lparr>library_name = JStr ''lib'', operating_system = JStr ''windows'',
              download_path = JStr ''a/lib.jar'', download_url = JStr ''https://h/lib.jar''\<rparr>"
  have a: "py_get ?raw ''rules'' (JArr []) = Inr (JArr ?rs)" by simp
  have b: "list_all rule_ok ?rs" by (simp add: rule_ok_def)
  have c: "parse_library ?raw = Inr (Some ?l)" by (simp add: parse_library_def)
  have "operating_system ?l = JStr ''windows''"
    using platform_is_last_os_rule [OF a b c] by (simp add: has_os_def os_name_or_default_def)
  with c show ?thesis by simp
qed

text \<open>
  The claim as the specification states it fails: a rule whose \<^verbatim>\<open>os\<close> object has no
  name (here it restricts the architecture) resets the constraint to \<^verbatim>\<open>unspecified\<close>,
  although an earlier rule named \<^verbatim>\<open>linux\<close>.
\<close>

theorem platform_not_last_named_rule:
  "parse_library
     (JObj [(''name'', JStr ''lib''),
            (''rules'', JArr [JObj [(''os'', JObj [(''name'', JStr ''linux'')])],
                             JObj [(''os'', JObj [(''arch'', JStr ''x86'')])]]),
            (''downloads'', JObj [(''artifact'',
               JObj [(''path'', JStr ''a/lib.jar''), (''url'', JStr ''https://h/lib.jar'')])])])
   = Inr (Some \<lparr>library_name = JStr ''lib'', operating_system = JStr ''unspecified'',
                download_path = JStr ''a/lib.jar'', download_url = JStr ''https://h/lib.jar''\<rparr>)
   \<and> spec_platform [JObj [(''os'', JObj [(''name'', JStr ''linux'')])],
                    JObj [(''os'', JObj [(''arch'', JStr ''x86'')])]]
     = JStr ''linux''"
  by (simp add: parse_library_def spec_platform_def specifies_os_name_def
      os_name_or_default_def)

lemma parse_libraries_append:
  "parse_libraries libs (xs @ ys) =
     (case parse_libraries libs xs of Inl e \<Rightarrow> Inl e | Inr libs' \<Rightarrow> parse_libraries libs' ys)"
  by (induction xs arbitrary: libs) (auto split: sum.splits option.splits)

lemma py_get_missing: "py_subscript x k = Inl e \<Longrightarrow> py_get x k d = Inr v \<Longrightarrow> v = d"
  by (cases x) (auto split: option.splits)

lemma lacks_artifact_parse:
  assumes "lacks_artifact raw" and "parse_library raw = Inr r"
  shows "r = None"
proof -
  from assms(2) obtain downloads artifact where
    d: "py_get raw ''downloads'' (JObj []) = Inr downloads"
    and a: "py_get downloads ''artifact'' JNull = Inr artifact"
    and r: "\<not> truthy artifact \<longrightarrow> r = None"
    by (auto simp: parse_library_def split: sum.splits if_splits)
  have "py_subscript downloads ''artifact'' \<noteq> Inr v" for v
  proof (cases raw)
    case (JObj kv)
    show ?thesis
    proof (cases "map_of kv ''downloads''")
      case None
      with d JObj have "downloads = JObj []" by simp
      then show ?thesis by simp
    next
      case (Some x)
      with d JObj have "downloads = x" by simp
      with assms(1) JObj Some show ?thesis
        by (auto simp: lacks_artifact_def split: sum.splits)
    qed
  qed (use d in auto)
  then obtain e where "py_subscript downloads ''artifact'' = Inl e"
    by (cases "py_subscript downloads ''artifact''") auto
  with a have "artifact = JNull" using py_get_missing by blast
  with r show ?thesis by simp
qed

lemma version_data_of_libs:
  "parse_libraries [] xs = parse_libraries [] ys \<Longrightarrow>
   version_data_of (detail_with_libraries kv xs) = version_data_of (detail_with_libraries kv ys)"
  by (simp add: version_data_of_def detail_with_libraries_def cong: sum.case_cong)

text \<open>
  C8. A library entry without \<^verbatim>\<open>downloads.artifact\<close> appends no \<^verbatim>\<open>Library\<close>: where the
  detail document parses, the entry itself yields nothing, and the \<^verbatim>\<open>VersionData\<close> is the
  one of the document without the entry. The class path and the submitted downloads are
  computed from the \<^verbatim>\<open>libraries\<close> of the \<^verbatim>\<open>VersionData\<close> alone, so the entry adds to neither.
\<close>

theorem no_artifact_no_library:
  assumes "lacks_artifact raw_library"
    and "version_data_of (detail_with_libraries kv (xs @ raw_library # ys)) = Inr vd"
  shows "parse_library raw_library = Inr None
         \<and> version_data_of (detail_with_libraries kv (xs @ ys)) = Inr vd"
proof -
  from assms(2) obtain libs where
    libs: "parse_libraries [] (xs @ raw_library # ys) = Inr libs"
    by (auto simp: version_data_of_def detail_with_libraries_def split: sum.splits)
  then obtain libs1 where l1: "parse_libraries [] xs = Inr libs1"
    and l2: "parse_libraries libs1 (raw_library # ys) = Inr libs"
    by (auto simp: parse_libraries_append split: sum.splits)
  from l2 obtain r where r: "parse_library raw_library = Inr r"
    by (auto split: sum.splits)
  with assms(1) have n: "parse_library raw_library = Inr None"
    using lacks_artifact_parse by blast
  with l2 have "parse_libraries libs1 ys = Inr libs" by simp
  with l1 have "parse_libraries [] (xs @ ys) = Inr libs"
    by (simp add: parse_libraries_append)
  with libs have "parse_libraries [] (xs @ raw_library # ys) = parse_libraries [] (xs @ ys)"
    by simp
  then have "version_data_of (detail_with_libraries kv (xs @ raw_library # ys))
             = version_data_of (detail_with_libraries kv (xs @ ys))"
    by (rule version_data_of_libs)
  with n assms(2) show ?thesis by simp
qed

lemma ex_parse_linux:
  "parse_library ex_lib_linux = Inr (Some (libraries ex_version_data ! 0))"
  by (simp add: parse_library_def ex_lib_linux_def ex_version_data_def)

lemma ex_parse_any:
  "parse_library ex_lib_any = Inr (Some (libraries ex_version_data ! 1))"
  by (simp add: parse_library_def ex_lib_any_def ex_version_data_def)

lemma ex_parse_no_artifact: "parse_library ex_lib_no_artifact = Inr None"
  by (simp add: parse_library_def ex_lib_no_artifact_def)

lemma ex_version_data_of:
  "version_data_of
     (detail_with_libraries ex_fields ([ex_lib_linux] @ ex_lib_no_artifact # [ex_lib_any]))
   = Inr ex_version_data"
  by (simp add: version_data_of_def detail_with_libraries_def ex_parse_linux ex_parse_any
      ex_parse_no_artifact)
     (simp add: ex_fields_def ex_version_data_def)

theorem no_artifact_no_library_witness:
  "lacks_artifact ex_lib_no_artifact
   \<and> version_data_of
       (detail_with_libraries ex_fields ([ex_lib_linux] @ ex_lib_no_artifact # [ex_lib_any]))
     = Inr ex_version_data
   \<and> parse_library ex_lib_no_artifact = Inr None
   \<and> version_data_of (detail_with_libraries ex_fields ([ex_lib_linux] @ [ex_lib_any]))
     = Inr ex_version_data"
proof -
  have a: "lacks_artifact ex_lib_no_artifact"
    by (simp add: lacks_artifact_def ex_lib_no_artifact_def)
  show ?thesis
    using a ex_version_data_of no_artifact_no_library [OF a ex_version_data_of] by simp
qed

lemma version_data_of_server_field:
  "version_data_of raw = Inr vd \<Longrightarrow>
   subscripts raw [''downloads'', ''server'', ''url''] = Inr (server_jar_url vd)"
  unfolding version_data_of_def
  by (auto split: sum.splits)

lemma descriptor_server:
  "descriptor v (vd\<lparr>server_jar_url := u\<rparr>) cp rel = descriptor v vd cp rel"
  by (simp add: descriptor_def)

lemma write_descriptor_server:
  "write_descriptor E output_dir v (vd\<lparr>server_jar_url := u\<rparr>) cp w
     = write_descriptor E output_dir v vd cp w"
  by (simp add: write_descriptor_def descriptor_server cong: sum.case_cong)

lemma dms_server:
  "download_minecraft_structure E output_dir v (vd\<lparr>server_jar_url := u\<rparr>) w
       = download_minecraft_structure E output_dir v vd w"
  unfolding download_minecraft_structure_def Let_def
  by (simp add: write_descriptor_server
        cong: sum.case_cong prod.case_cong option.case_cong outcome.case_cong)

text \<open>
  C9. When the lookup \<^verbatim>\<open>raw_version_details["downloads"]["server"]["url"]\<close> raises, the
  parse of the detail document raises. Yet the downloads and the descriptor do not
  depend on the server URL: \<^verbatim>\<open>download_minecraft_structure\<close> leaves the same world
  (files, trace of requests and submitted tasks, descriptor) whatever the field holds.
\<close>

theorem server_url_required_but_unused:
  "(subscripts raw [''downloads'', ''server'', ''url''] = Inl e
      \<longrightarrow> (\<exists>e'. version_data_of raw = Inl e'))
   \<and> download_minecraft_structure E output_dir v (vd\<lparr>server_jar_url := u\<rparr>) w
       = download_minecraft_structure E output_dir v vd w"
proof -
  have "\<exists>e'. version_data_of raw = Inl e'"
    if "subscripts raw [''downloads'', ''server'', ''url''] = Inl e"
  proof (cases "version_data_of raw")
    case (Inl e')
    then show ?thesis by blast
  next
    case (Inr vd')
    then show ?thesis using version_data_of_server_field [OF Inr] that by simp
  qed
  then show ?thesis using dms_server by blast
qed

theorem server_url_required_but_unused_witness:
  "subscripts (detail_with_libraries ex_fields_no_server [ex_lib_any])
     [''downloads'', ''server'', ''url''] = Inl (KeyError ''server'')
   \<and> (\<exists>e'. version_data_of (detail_with_libraries ex_fields_no_server [ex_lib_any])
             = Inl e')"
proof -
  have a: "subscripts (detail_with_libraries ex_fields_no_server [ex_lib_any])
             [''downloads'', ''server'', ''url''] = Inl (KeyError ''server'')"
    by (simp add: detail_with_libraries_def ex_fields_no_server_def)
  show ?thesis
    using a server_url_required_but_unused
      [of "detail_with_libraries ex_fields_no_server [ex_lib_any]" "KeyError ''server''"]
    by blast
qed

section \<open>Effects of the file system calls, the worker pool and the loops\<close>

lemma adds_dirs_refl: "adds_dirs f f"
  by (simp add: adds_dirs_def)

lemma adds_dirs_trans: "adds_dirs f g \<Longrightarrow> adds_dirs g h \<Longrightarrow> adds_dirs f h"
  unfolding adds_dirs_def by (metis option.distinct(1))

lemma mkdir_adds: "mkdir name f = Inr f' \<Longrightarrow> adds_dirs f f'"
  by (auto simp: mkdir_def adds_dirs_def split: if_splits option.splits)

lemma mkdir_exist_ok_adds: "mkdir_exist_ok name f = (r, f') \<Longrightarrow> adds_dirs f f'"
  by (auto simp: mkdir_exist_ok_def adds_dirs_refl split: sum.splits if_splits dest: mkdir_adds)

lemma makedirs_adds: "makedirs name f = (r, f') \<Longrightarrow> adds_dirs f f'"
proof (induction name f arbitrary: r f' rule: makedirs.induct)
  case (1 name f)
  let ?rec = "fst (split_twice name) \<noteq> [] \<and> snd (split_twice name) \<noteq> []
               \<and> f (fst (split_twice name)) = None"
  show ?case
  proof (cases ?rec)
    case False
    then have "makedirs name f = mkdir_exist_ok name f"
      by (subst makedirs.simps) (simp only: if_False)
    with "1.prems" show ?thesis using mkdir_exist_ok_adds by metis
  next
    case True
    obtain r1 f1 where rec: "makedirs (fst (split_twice name)) f = (r1, f1)"
      by (cases "makedirs (fst (split_twice name)) f") auto
    have a1: "adds_dirs f f1" using "1.IH" [OF True rec] .
    have "f' = f1 \<or> (\<exists>r2. mkdir_exist_ok name f1 = (r2, f'))"
      using "1.prems" True rec
      by (subst (asm) makedirs.simps) (auto split: option.splits if_splits)
    then show ?thesis
      using a1 mkdir_exist_ok_adds adds_dirs_trans by blast
  qed
qed

lemma makedirs_all_adds: "makedirs_all ds f = (r, f') \<Longrightarrow> adds_dirs f f'"
proof (induction ds arbitrary: f)
  case Nil
  then show ?case by (simp add: adds_dirs_refl)
next
  case (Cons d ds)
  obtain r1 f1 where m: "makedirs d f = (r1, f1)" by (cases "makedirs d f") auto
  show ?case
  proof (cases r1)
    case None
    with Cons.prems m have "makedirs_all ds f1 = (r, f')" by simp
    then show ?thesis using Cons.IH makedirs_adds [OF m] adds_dirs_trans by blast
  next
    case (Some e)
    with Cons.prems m have "f' = f1" by simp
    then show ?thesis using makedirs_adds [OF m] by simp
  qed
qed

lemma keeps_refl: "keeps f f" by (simp add: keeps_def)

lemma keeps_trans: "keeps f g \<Longrightarrow> keeps g h \<Longrightarrow> keeps f h"
  unfolding keeps_def by metis

lemma adds_dirs_keeps: "adds_dirs f f' \<Longrightarrow> keeps f f'"
  unfolding adds_dirs_def keeps_def by metis

lemma open_write_new: "open_write p f = Inr f' \<Longrightarrow> f' = f(p \<mapsto> File [])"
  by (auto simp: open_write_def split: if_splits option.splits)

lemma download_file_skip: "fs w p \<noteq> None \<Longrightarrow> download_file E url p w = (Skipped, w)"
  by (simp add: download_file_def)

lemma download_file_effect:
  assumes "download_file E url p w = (out, w')"
  shows "pending w' = pending w \<and> schedule w' = schedule w
         \<and> (trace w' = trace w \<or> trace w' = trace w @ [SessionGet url])
         \<and> keeps (fs w) (fs w')"
proof (cases "fs w p")
  case (Some n)
  with assms show ?thesis by (simp add: download_file_def keeps_refl)
next
  case None
  obtain r f1 where m: "makedirs (dirname p) (fs w) = (r, f1)"
    by (cases "makedirs (dirname p) (fs w)") auto
  have k1: "keeps (fs w) f1" using makedirs_adds [OF m] by (rule adds_dirs_keeps)
  have k2: "keeps (fs w) (f1(p \<mapsto> n))" for n
    using k1 None by (auto simp: keeps_def)
  show ?thesis
    using assms None m k1 k2
    by (auto simp: download_file_def Let_def
          split: option.splits json.splits response.splits if_splits sum.splits
          dest!: open_write_new)
qed

lemma extends_by_refl: "extends_by P w w"
  by (simp add: extends_by_def)

lemma extends_by_trans: "extends_by P w w1 \<Longrightarrow> extends_by P w1 w2 \<Longrightarrow> extends_by P w w2"
  by (auto simp: extends_by_def)

lemma extends_by_mono: "extends_by P w w' \<Longrightarrow> (\<And>e. P e \<Longrightarrow> Q e) \<Longrightarrow> extends_by Q w w'"
  by (auto simp: extends_by_def list_all_iff)

lemma extends_by_trace_upd:
  "extends_by P w w' \<Longrightarrow> P e \<Longrightarrow> extends_by P w (w'\<lparr>trace := trace w' @ [e]\<rparr>)"
  by (auto simp: extends_by_def)

lemma download_file_extends:
  "download_file E url p w = (out, w') \<Longrightarrow> extends_by is_worker_event w w'"
  using download_file_effect [of E url p w out w'] by (auto simp: extends_by_def)

lemma run_pending_effect:
  "extends_by is_worker_event w (run_pending E n w)
   \<and> keeps (fs w) (fs (run_pending E n w))
   \<and> schedule (run_pending E n w) = schedule w
   \<and> pending (run_pending E n w) = drop n (pending w)"
proof (induction n arbitrary: w)
  case 0
  show ?case by (simp add: extends_by_refl keeps_refl)
next
  case (Suc n)
  show ?case
  proof (cases "pending w")
    case Nil
    then show ?thesis by (simp add: extends_by_refl keeps_refl)
  next
    case (Cons t ts)
    obtain url path where t: "t = (url, path)" by (cases t) auto
    obtain out w1 where d: "download_file E url path (w\<lparr>pending := ts\<rparr>) = (out, w1)"
      by (cases "download_file E url path (w\<lparr>pending := ts\<rparr>)") auto
    let ?w2 = "w1\<lparr>trace := trace w1 @ [Finished url path out]\<rparr>"
    have r: "run_pending E (Suc n) w = run_pending E n ?w2"
      using Cons t d by simp
    have e1: "extends_by is_worker_event (w\<lparr>pending := ts\<rparr>) w1"
      using d by (rule download_file_extends)
    then have e2: "extends_by is_worker_event w ?w2"
      by (auto simp: extends_by_def)
    have k: "keeps (fs w) (fs ?w2)" "schedule ?w2 = schedule w" "pending ?w2 = ts"
      using download_file_effect [OF d] by auto
    show ?thesis
      unfolding r using Suc.IH [of ?w2] e2 k
      by (auto simp: Cons intro: extends_by_trans keeps_trans)
  qed
qed

lemma workers_run_effect:
  "extends_by is_worker_event w (workers_run E w) \<and> keeps (fs w) (fs (workers_run E w))"
proof (cases "schedule w")
  case Nil
  then show ?thesis by (simp add: workers_run_def extends_by_refl keeps_refl)
next
  case (Cons n ns)
  then have "workers_run E w = run_pending E n (w\<lparr>schedule := ns\<rparr>)"
    by (simp add: workers_run_def)
  then show ?thesis
    using run_pending_effect [of "w\<lparr>schedule := ns\<rparr>" E n]
    by (auto simp: extends_by_def)
qed

lemma drain_effect:
  "extends_by is_worker_event w (drain E w) \<and> keeps (fs w) (fs (drain E w))
   \<and> pending (drain E w) = []"
  using run_pending_effect [of w E "length (pending w)"] by (simp add: drain_def)

lemma submit_trace:
  "\<exists>evs. trace (submit E url path w) = trace w @ Submitted url path # evs
         \<and> list_all is_worker_event evs"
  using workers_run_effect
    [of "w\<lparr>pending := pending w @ [(url, path)], trace := trace w @ [Submitted url path]\<rparr>" E]
  by (auto simp: submit_def extends_by_def)

lemma submit_keeps: "keeps (fs w) (fs (submit E url path w))"
  using workers_run_effect
    [of "w\<lparr>pending := pending w @ [(url, path)], trace := trace w @ [Submitted url path]\<rparr>" E]
  by (auto simp: submit_def)

lemma dms_decompose:
  assumes "download_minecraft_structure E output_dir v vd w = (r, w')"
  shows
    "(\<exists>e f1. makedirs_all [output_dir, libraries_dir output_dir, objects_dir output_dir,
                 indexes_dir output_dir] (fs w) = (Some e, f1) \<and> r = Some e \<and> w' = w\<lparr>fs := f1\<rparr>)
     \<or> (\<exists>f1 rl w2.
          makedirs_all [output_dir, libraries_dir output_dir, objects_dir output_dir,
                 indexes_dir output_dir] (fs w) = (None, f1)
          \<and> libraries_loop E output_dir (libraries_dir output_dir) (libraries vd) []
               (submit E (client_jar_url vd) (client_path output_dir) (w\<lparr>fs := f1\<rparr>)) = (rl, w2)
          \<and> ((\<exists>e. rl = Inl e \<and> r = Some e \<and> w' = w2)
             \<or> (\<exists>cp out3 w3. rl = Inr cp
                  \<and> download_file E (asset_index_url vd) (index_path E output_dir vd)
                       (workers_run E w2) = (out3, w3)
                  \<and> ((\<exists>e. out3 = Failed e \<and> r = Some e \<and> w' = w3)
                     \<or> ((\<forall>e. out3 \<noteq> Failed e)
                        \<and> ((\<exists>e. read_asset_index E (index_path E output_dir vd) (fs w3) = Inl e
                                \<and> r = Some e \<and> w' = w3)
                           \<or> (\<exists>ods ro w4.
                                read_asset_index E (index_path E output_dir vd) (fs w3) = Inr ods
                                \<and> objects_loop E (objects_dir output_dir) ods w3 = (ro, w4)
                                \<and> ((\<exists>e. ro = Some e \<and> r = Some e \<and> w' = w4)
                                   \<or> (ro = None
                                      \<and> write_descriptor E output_dir v vd cp w4 = (r, w'))))))))))"
  using assms
  unfolding download_minecraft_structure_def Let_def libraries_dir_def objects_dir_def
    indexes_dir_def index_path_def client_path_def
  by (auto split: prod.splits option.splits sum.splits outcome.splits)

lemma worker_not_submit: "list_all is_worker_event evs \<Longrightarrow> filter is_submit evs = []"
proof (induction evs)
  case Nil
  then show ?case by simp
next
  case (Cons e evs)
  then show ?case by (cases e) auto
qed

lemma worker_is_task: "list_all is_worker_event evs \<Longrightarrow> list_all is_task_event evs"
  by (simp add: list_all_iff is_task_event_def)

lemma submit_step:
  "\<exists>evs. trace (submit E url path w) = trace w @ evs
         \<and> filter is_submit evs = [Submitted url path]
         \<and> list_all is_task_event evs"
proof -
  obtain evs where e: "trace (submit E url path w) = trace w @ Submitted url path # evs"
    and l: "list_all is_worker_event evs"
    using submit_trace by blast
  have "filter is_submit (Submitted url path # evs) = [Submitted url path]"
    using worker_not_submit [OF l] by simp
  moreover have "list_all is_task_event (Submitted url path # evs)"
    using worker_is_task [OF l] by (simp add: is_task_event_def)
  ultimately show ?thesis using e by blast
qed

lemma libraries_loop_effect:
  "libraries_loop E output_dir libdir libs cp w = (r, w') \<Longrightarrow>
   extends_by is_task_event w w' \<and> keeps (fs w) (fs w')"
proof (induction libs arbitrary: cp w)
  case Nil
  then show ?case by (simp add: extends_by_refl keeps_refl)
next
  case (Cons l libs)
  show ?case
  proof (cases "skipped_on_host E l")
    case True
    with Cons show ?thesis by simp
  next
    case False
    show ?thesis
    proof (cases "download_path l")
      case (JStr p)
      let ?w1 = "submit E (download_url l) (path_join libdir p) w"
      have s: "extends_by is_task_event w ?w1" "keeps (fs w) (fs ?w1)"
        using submit_step [of E "download_url l" "path_join libdir p" w] submit_keeps
        by (auto simp: extends_by_def)
      show ?thesis
      proof (cases "relpath (cwd E) (path_join libdir p) output_dir")
        case (Inl e)
        with Cons.prems False JStr have "w' = ?w1" by (simp add: Let_def)
        with s show ?thesis by simp
      next
        case (Inr rp)
        with Cons.prems False JStr
        have "libraries_loop E output_dir libdir libs (cp @ [rp]) ?w1 = (r, w')"
          by (simp add: Let_def)
        from Cons.IH [OF this] s show ?thesis
          by (auto intro: extends_by_trans keeps_trans)
      qed
    qed (use Cons.prems False in \<open>auto simp: extends_by_refl keeps_refl\<close>)
  qed
qed

lemma libraries_loop_ok:
  "libraries_loop E output_dir (libraries_dir output_dir) libs cp w = (Inr cp', w') \<Longrightarrow>
   map Inr cp' = map Inr cp @ map (classpath_entry E output_dir)
                               (filter (\<lambda>l. \<not> skipped_on_host E l) libs)
   \<and> (\<exists>evs. trace w' = trace w @ evs
          \<and> filter is_submit evs = map (library_task output_dir)
                                      (filter (\<lambda>l. \<not> skipped_on_host E l) libs))"
proof (induction libs arbitrary: cp w)
  case Nil
  then show ?case by simp
next
  case (Cons l libs)
  show ?case
  proof (cases "skipped_on_host E l")
    case True
    with Cons show ?thesis by simp
  next
    case False
    show ?thesis
    proof (cases "download_path l")
      case (JStr p)
      let ?dp = "path_join (libraries_dir output_dir) p"
      let ?w1 = "submit E (download_url l) ?dp w"
      obtain evs1 where s: "trace ?w1 = trace w @ evs1"
        "filter is_submit evs1 = [Submitted (download_url l) ?dp]"
        using submit_step [of E "download_url l" ?dp w] by blast
      have t: "library_task output_dir l = Submitted (download_url l) ?dp"
        by (simp add: library_task_def the_str_def JStr)
      show ?thesis
      proof (cases "relpath (cwd E) ?dp output_dir")
        case (Inl e)
        with Cons.prems False JStr show ?thesis by (simp add: Let_def)
      next
        case (Inr rp)
        with Cons.prems False JStr
        have "libraries_loop E output_dir (libraries_dir output_dir) libs (cp @ [rp]) ?w1
                = (Inr cp', w')"
          by (simp add: Let_def)
        from Cons.IH [OF this] obtain evs2 where
          c: "map Inr cp' = map Inr (cp @ [rp]) @ map (classpath_entry E output_dir)
                               (filter (\<lambda>l. \<not> skipped_on_host E l) libs)"
          and e: "trace w' = trace ?w1 @ evs2"
          "filter is_submit evs2 = map (library_task output_dir)
                                      (filter (\<lambda>l. \<not> skipped_on_host E l) libs)"
          by blast
        have ce: "classpath_entry E output_dir l = Inr rp"
          by (simp add: classpath_entry_def JStr Inr)
        have "trace w' = trace w @ (evs1 @ evs2)" using s e by simp
        moreover have "filter is_submit (evs1 @ evs2)
                       = map (library_task output_dir)
                           (filter (\<lambda>l. \<not> skipped_on_host E l) (l # libs))"
          using s e False t by simp
        moreover have "map Inr cp' = map Inr cp @ map (classpath_entry E output_dir)
                               (filter (\<lambda>l. \<not> skipped_on_host E l) (l # libs))"
          using c ce False by simp
        ultimately show ?thesis by blast
      qed
    qed (use Cons.prems False in auto)
  qed
qed

lemma objects_loop_effect:
  "objects_loop E objdir ods w = (r, w') \<Longrightarrow>
   extends_by is_task_event w w' \<and> keeps (fs w) (fs w')"
proof (induction ods arbitrary: w)
  case Nil
  then show ?case by (simp add: extends_by_refl keeps_refl)
next
  case (Cons od ods)
  show ?case
  proof (cases "py_subscript od ''hash''")
    case (Inl e)
    with Cons.prems show ?thesis by (simp add: extends_by_refl keeps_refl)
  next
    case (Inr hv)
    show ?thesis
    proof (cases hv)
      case (JStr h)
      let ?u = "JStr (RESOURCES_BASE_URL @ ''/'' @ take 2 h @ ''/'' @ h)"
      let ?p = "path_join (path_join objdir (take 2 h)) h"
      let ?w1 = "submit E ?u ?p w"
      have s: "extends_by is_task_event w ?w1" "keeps (fs w) (fs ?w1)"
        using submit_step [of E ?u ?p w] submit_keeps by (auto simp: extends_by_def)
      from Cons.prems Inr JStr have "objects_loop E objdir ods ?w1 = (r, w')"
        by (simp add: Let_def)
      from Cons.IH [OF this] s show ?thesis
        by (auto intro: extends_by_trans keeps_trans)
    qed (use Cons.prems Inr in \<open>auto simp: extends_by_refl keeps_refl\<close>)
  qed
qed

lemma objects_loop_ok:
  "objects_loop E (objects_dir output_dir) ods w = (None, w') \<Longrightarrow>
   (\<forall>od \<in> set ods. py_subscript od ''hash'' = Inr (JStr (hash_of od)))
   \<and> (\<exists>evs. trace w' = trace w @ evs
          \<and> filter is_submit evs = map (\<lambda>od. object_task output_dir (hash_of od)) ods)"
proof (induction ods arbitrary: w)
  case Nil
  then show ?case by simp
next
  case (Cons od ods)
  show ?case
  proof (cases "py_subscript od ''hash''")
    case (Inl e)
    with Cons.prems show ?thesis by simp
  next
    case (Inr hv)
    show ?thesis
    proof (cases hv)
      case (JStr h)
      let ?u = "JStr (RESOURCES_BASE_URL @ ''/'' @ take 2 h @ ''/'' @ h)"
      let ?p = "path_join (path_join (objects_dir output_dir) (take 2 h)) h"
      let ?w1 = "submit E ?u ?p w"
      have h: "hash_of od = h" by (simp add: hash_of_def Inr JStr)
      obtain evs1 where s: "trace ?w1 = trace w @ evs1"
        "filter is_submit evs1 = [Submitted ?u ?p]"
        using submit_step [of E ?u ?p w] by blast
      from Cons.prems Inr JStr
      have "objects_loop E (objects_dir output_dir) ods ?w1 = (None, w')"
        by (simp add: Let_def)
      from Cons.IH [OF this] obtain evs2 where
        a: "\<forall>od \<in> set ods. py_subscript od ''hash'' = Inr (JStr (hash_of od))"
        and e: "trace w' = trace ?w1 @ evs2"
          "filter is_submit evs2 = map (\<lambda>od. object_task output_dir (hash_of od)) ods"
        by blast
      have "trace w' = trace w @ (evs1 @ evs2)" using s e by simp
      moreover have "filter is_submit (evs1 @ evs2)
                     = map (\<lambda>od. object_task output_dir (hash_of od)) (od # ods)"
        using s e h by (simp add: object_task_def)
      moreover have "\<forall>od \<in> set (od # ods). py_subscript od ''hash'' = Inr (JStr (hash_of od))"
        using a h Inr JStr by simp
      ultimately show ?thesis by blast
    qed (use Cons.prems Inr in auto)
  qed
qed

lemma write_descriptor_effect:
  assumes "write_descriptor E output_dir v vd cp w = (r, w')"
  shows "(r = None \<longrightarrow>
            (\<exists>rel. relpath (cwd E) (assets_dir output_dir) output_dir = Inr rel
               \<and> trace w' = trace w @ [WroteDescriptor (meta_path output_dir) (descriptor v vd cp rel)]
               \<and> fs w' (meta_path output_dir) = Some (File (json_dumps E (descriptor v vd cp rel)))))
         \<and> (r \<noteq> None \<longrightarrow> trace w' = trace w)"
  using assms
  by (auto simp: write_descriptor_def Let_def meta_path_def assets_dir_def
        split: sum.splits)

lemma task_trans: "extends_by is_task_event a b \<Longrightarrow> extends_by is_task_event b c
   \<Longrightarrow> extends_by is_task_event a c"
  by (rule extends_by_trans)

lemma submit_task: "extends_by is_task_event w (submit E u p (w\<lparr>fs := f1\<rparr>))"
  using submit_step [of E u p "w\<lparr>fs := f1\<rparr>"] by (auto simp: extends_by_def)

lemma index_task:
  assumes "download_file E u p (workers_run E w2) = (out3, w3)"
  shows "extends_by is_task_event w2 w3"
proof -
  have "extends_by is_worker_event w2 (workers_run E w2)"
    using workers_run_effect by blast
  moreover have "extends_by is_worker_event (workers_run E w2) w3"
    using assms by (rule download_file_extends)
  ultimately have "extends_by is_worker_event w2 w3" by (rule extends_by_trans)
  then show ?thesis by (rule extends_by_mono) (simp add: is_task_event_def)
qed

lemma dms_failure:
  assumes "download_minecraft_structure E output_dir v vd w = (Some e, w')"
  shows "extends_by is_task_event w w'"
proof -
  from dms_decompose [OF assms] show ?thesis
  proof (elim disjE exE conjE)
    fix e' f1
    assume "w' = w\<lparr>fs := f1\<rparr>"
    then show ?thesis by (simp add: extends_by_def)
  next
    fix f1 rl w2 e'
    assume l: "libraries_loop E output_dir (libraries_dir output_dir) (libraries vd) []
                 (submit E (client_jar_url vd) (client_path output_dir) (w\<lparr>fs := f1\<rparr>)) = (rl, w2)"
      and w: "w' = w2"
    show ?thesis unfolding w
      using submit_task libraries_loop_effect [OF l, THEN conjunct1] by (rule task_trans)
  next
    fix f1 rl w2 cp out3 w3 e'
    assume l: "libraries_loop E output_dir (libraries_dir output_dir) (libraries vd) []
                 (submit E (client_jar_url vd) (client_path output_dir) (w\<lparr>fs := f1\<rparr>)) = (rl, w2)"
      and d: "download_file E (asset_index_url vd) (index_path E output_dir vd)
                (workers_run E w2) = (out3, w3)"
      and w: "w' = w3"
    have "extends_by is_task_event w w2"
      using submit_task libraries_loop_effect [OF l, THEN conjunct1] by (rule task_trans)
    then show ?thesis unfolding w using index_task [OF d] by (rule task_trans)
  next
    fix f1 rl w2 cp out3 w3 e'
    assume l: "libraries_loop E output_dir (libraries_dir output_dir) (libraries vd) []
                 (submit E (client_jar_url vd) (client_path output_dir) (w\<lparr>fs := f1\<rparr>)) = (rl, w2)"
      and d: "download_file E (asset_index_url vd) (index_path E output_dir vd)
                (workers_run E w2) = (out3, w3)"
      and w: "w' = w3"
    have "extends_by is_task_event w w2"
      using submit_task libraries_loop_effect [OF l, THEN conjunct1] by (rule task_trans)
    then show ?thesis unfolding w using index_task [OF d] by (rule task_trans)
  next
    fix f1 rl w2 cp out3 w3 ods ro w4 e'
    assume l: "libraries_loop E output_dir (libraries_dir output_dir) (libraries vd) []
                 (submit E (client_jar_url vd) (client_path output_dir) (w\<lparr>fs := f1\<rparr>)) = (rl, w2)"
      and d: "download_file E (asset_index_url vd) (index_path E output_dir vd)
                (workers_run E w2) = (out3, w3)"
      and ob: "objects_loop E (objects_dir output_dir) ods w3 = (ro, w4)"
      and w: "w' = w4"
    have "extends_by is_task_event w w2"
      using submit_task libraries_loop_effect [OF l, THEN conjunct1] by (rule task_trans)
    then have "extends_by is_task_event w w3" using index_task [OF d] by (rule task_trans)
    then show ?thesis unfolding w
      using objects_loop_effect [OF ob, THEN conjunct1] by (rule task_trans)
  next
    fix f1 rl w2 cp out3 w3 ods ro w4
    assume l: "libraries_loop E output_dir (libraries_dir output_dir) (libraries vd) []
                 (submit E (client_jar_url vd) (client_path output_dir) (w\<lparr>fs := f1\<rparr>)) = (rl, w2)"
      and d: "download_file E (asset_index_url vd) (index_path E output_dir vd)
                (workers_run E w2) = (out3, w3)"
      and ob: "objects_loop E (objects_dir output_dir) ods w3 = (ro, w4)"
      and wd: "write_descriptor E output_dir v vd cp w4 = (Some e, w')"
    have "extends_by is_task_event w w2"
      using submit_task libraries_loop_effect [OF l, THEN conjunct1] by (rule task_trans)
    then have "extends_by is_task_event w w3" using index_task [OF d] by (rule task_trans)
    then have "extends_by is_task_event w w4"
      using objects_loop_effect [OF ob, THEN conjunct1] by (rule task_trans)
    moreover have "extends_by is_task_event w4 w'"
      using write_descriptor_effect [OF wd] by (simp add: extends_by_def)
    ultimately show ?thesis by (rule task_trans)
  qed
qed

lemma extends_by_append:
  "trace w' = trace w @ evs \<Longrightarrow> extends_by P w w' \<Longrightarrow> list_all P evs"
  by (auto simp: extends_by_def)

lemma write_descriptor_other:
  "write_descriptor E output_dir v vd cp w = (r, w') \<Longrightarrow> q \<noteq> meta_path output_dir
   \<Longrightarrow> fs w' q = fs w q"
  by (auto simp: write_descriptor_def Let_def meta_path_def
        split: sum.splits dest!: open_write_new)

lemma dms_success:
  assumes "download_minecraft_structure E output_dir v vd w = (None, w')"
  obtains f1 cp w2 out3 w3 ods w4 where
    "libraries_loop E output_dir (libraries_dir output_dir) (libraries vd) []
       (submit E (client_jar_url vd) (client_path output_dir) (w\<lparr>fs := f1\<rparr>)) = (Inr cp, w2)"
    "download_file E (asset_index_url vd) (index_path E output_dir vd) (workers_run E w2)
       = (out3, w3)"
    "read_asset_index E (index_path E output_dir vd) (fs w3) = Inr ods"
    "objects_loop E (objects_dir output_dir) ods w3 = (None, w4)"
    "write_descriptor E output_dir v vd cp w4 = (None, w')"
  using dms_decompose [OF assms] by (elim disjE exE conjE) auto

lemma index_worker:
  assumes "download_file E u p (workers_run E w2) = (out3, w3)"
  shows "extends_by is_worker_event w2 w3"
proof -
  have "extends_by is_worker_event w2 (workers_run E w2)"
    using workers_run_effect by blast
  moreover have "extends_by is_worker_event (workers_run E w2) w3"
    using assms by (rule download_file_extends)
  ultimately show ?thesis by (rule extends_by_trans)
qed

lemma index_keeps:
  assumes "download_file E u p (workers_run E w2) = (out3, w3)"
  shows "keeps (fs w2) (fs w3)"
  using workers_run_effect [of w2 E] download_file_effect [OF assms] keeps_trans by blast

lemma last_path_join: "b \<noteq> [] \<Longrightarrow> last (path_join a b) = last b"
  by (simp add: path_join_def)

lemma index_path_not_meta: "index_path E output_dir vd \<noteq> meta_path output_dir"
proof
  assume a: "index_path E output_dir vd = meta_path output_dir"
  have "last (index_path E output_dir vd) = CHR ''n''"
    by (simp add: index_path_def last_path_join)
  moreover have "last (meta_path output_dir) = CHR ''a''"
    by (simp add: meta_path_def last_path_join)
  ultimately show False using a by simp
qed

lemma read_asset_index_cong:
  "f p = f' p \<Longrightarrow> read_asset_index E p f = read_asset_index E p f'"
  by (simp add: read_asset_index_def read_file_def)

lemma read_asset_index_exists: "read_asset_index E p f = Inr ods \<Longrightarrow> f p \<noteq> None"
  by (auto simp: read_asset_index_def read_file_def split: option.splits)

lemma dms_success_summary:
  assumes "download_minecraft_structure E output_dir v vd w = (None, w')"
  shows "\<exists>pre cp rel ods.
      trace w' = trace w @ pre @ [WroteDescriptor (meta_path output_dir) (descriptor v vd cp rel)]
      \<and> list_all is_task_event pre
      \<and> filter is_submit pre =
          Submitted (client_jar_url vd) (client_path output_dir)
          # map (library_task output_dir) (filter (\<lambda>l. \<not> skipped_on_host E l) (libraries vd))
          @ map (\<lambda>od. object_task output_dir (hash_of od)) ods
      \<and> map Inr cp = map (classpath_entry E output_dir)
                        (filter (\<lambda>l. \<not> skipped_on_host E l) (libraries vd))
      \<and> relpath (cwd E) (assets_dir output_dir) output_dir = Inr rel
      \<and> fs w' (meta_path output_dir) = Some (File (json_dumps E (descriptor v vd cp rel)))
      \<and> read_asset_index E (index_path E output_dir vd) (fs w') = Inr ods
      \<and> (\<forall>od \<in> set ods. py_subscript od ''hash'' = Inr (JStr (hash_of od)))"
proof -
  from assms obtain f1 cp w2 out3 w3 ods w4 where
    l: "libraries_loop E output_dir (libraries_dir output_dir) (libraries vd) []
       (submit E (client_jar_url vd) (client_path output_dir) (w\<lparr>fs := f1\<rparr>)) = (Inr cp, w2)"
    and d: "download_file E (asset_index_url vd) (index_path E output_dir vd) (workers_run E w2)
       = (out3, w3)"
    and ra: "read_asset_index E (index_path E output_dir vd) (fs w3) = Inr ods"
    and ob: "objects_loop E (objects_dir output_dir) ods w3 = (None, w4)"
    and wd: "write_descriptor E output_dir v vd cp w4 = (None, w')"
    by (rule dms_success)
  let ?w1 = "submit E (client_jar_url vd) (client_path output_dir) (w\<lparr>fs := f1\<rparr>)"
  let ?libs = "filter (\<lambda>l. \<not> skipped_on_host E l) (libraries vd)"
  obtain ea where ea: "trace ?w1 = trace w @ ea"
    "filter is_submit ea = [Submitted (client_jar_url vd) (client_path output_dir)]"
    "list_all is_task_event ea"
    using submit_step [of E "client_jar_url vd" "client_path output_dir" "w\<lparr>fs := f1\<rparr>"]
    by auto
  obtain eb where eb: "trace w2 = trace ?w1 @ eb"
    "filter is_submit eb = map (library_task output_dir) ?libs"
    and cp: "map Inr cp = map (classpath_entry E output_dir) ?libs"
    using libraries_loop_ok [OF l] by auto
  have eb3: "list_all is_task_event eb"
    using libraries_loop_effect [OF l] eb(1) extends_by_append by blast
  obtain ec where ec: "trace w3 = trace w2 @ ec" "list_all is_worker_event ec"
    using index_worker [OF d] by (auto simp: extends_by_def)
  obtain ed where ed: "trace w4 = trace w3 @ ed"
    "filter is_submit ed = map (\<lambda>od. object_task output_dir (hash_of od)) ods"
    and hs: "\<forall>od \<in> set ods. py_subscript od ''hash'' = Inr (JStr (hash_of od))"
    using objects_loop_ok [OF ob] by auto
  have ed3: "list_all is_task_event ed"
    using objects_loop_effect [OF ob] ed(1) extends_by_append by blast
  obtain rel where rel: "relpath (cwd E) (assets_dir output_dir) output_dir = Inr rel"
    "trace w' = trace w4 @ [WroteDescriptor (meta_path output_dir) (descriptor v vd cp rel)]"
    "fs w' (meta_path output_dir) = Some (File (json_dumps E (descriptor v vd cp rel)))"
    using write_descriptor_effect [OF wd] by auto
  have "fs w4 (index_path E output_dir vd) = fs w3 (index_path E output_dir vd)"
    using objects_loop_effect [OF ob] read_asset_index_exists [OF ra]
    by (simp add: keeps_def)
  then have "fs w' (index_path E output_dir vd) = fs w3 (index_path E output_dir vd)"
    using write_descriptor_other [OF wd index_path_not_meta] by simp
  then have ra': "read_asset_index E (index_path E output_dir vd) (fs w') = Inr ods"
    using ra read_asset_index_cong by metis
  let ?pre = "ea @ eb @ ec @ ed"
  have "trace w' = trace w @ ?pre @ [WroteDescriptor (meta_path output_dir) (descriptor v vd cp rel)]"
    using ea(1) eb(1) ec(1) ed(1) rel(2) by simp
  moreover have "list_all is_task_event ?pre"
    using ea(3) eb3 worker_is_task [OF ec(2)] ed3 by simp
  moreover have "filter is_submit ?pre =
          Submitted (client_jar_url vd) (client_path output_dir)
          # map (library_task output_dir) ?libs
          @ map (\<lambda>od. object_task output_dir (hash_of od)) ods"
    using ea(2) eb(2) worker_not_submit [OF ec(2)] ed(2) by simp
  ultimately show ?thesis using cp rel(1,3) ra' hs by blast
qed

section \<open>The descriptor file\<close>

lemma requests_get_json_effect:
  "requests_get_json E url w = (res, w1) \<Longrightarrow> w1 = w\<lparr>trace := trace w @ [RequestsGet url]\<rparr>"
  by (auto simp: requests_get_json_def Let_def
        split: json.splits response.splits if_splits option.splits)

lemma get_manifest_effect:
  "get_manifest E w = (res, w1) \<Longrightarrow> w1 = w\<lparr>trace := trace w @ [RequestsGet (JStr MANIFEST_URL)]\<rparr>"
  by (auto simp: get_manifest_def split: prod.splits sum.splits dest: requests_get_json_effect)

lemma get_version_data_effect:
  assumes "get_version_data E t w = (res, w1)"
  shows "fs w1 = fs w \<and> pending w1 = pending w \<and> schedule w1 = schedule w
         \<and> extends_by is_request w w1"
proof -
  obtain rm wm where m: "get_manifest E w = (rm, wm)" by (cases "get_manifest E w") auto
  have wm: "wm = w\<lparr>trace := trace w @ [RequestsGet (JStr MANIFEST_URL)]\<rparr>"
    using m by (rule get_manifest_effect)
  have "w1 = wm \<or> (\<exists>u r. requests_get_json E u wm = (r, w1))"
    using assms m by (auto simp: get_version_data_def split: sum.splits option.splits prod.splits)
  then show ?thesis
  proof
    assume "w1 = wm"
    then show ?thesis using wm by (simp add: extends_by_def)
  next
    assume "\<exists>u r. requests_get_json E u wm = (r, w1)"
    then obtain u r where "requests_get_json E u wm = (r, w1)" by blast
    then have "w1 = wm\<lparr>trace := trace wm @ [RequestsGet u]\<rparr>" by (rule requests_get_json_effect)
    then show ?thesis using wm by (simp add: extends_by_def)
  qed
qed

lemma task_not_write: "list_all is_task_event evs \<Longrightarrow> list_all (\<lambda>e. \<not> is_write e) evs"
proof (induction evs)
  case Nil
  then show ?case by simp
next
  case (Cons e evs)
  then show ?case by (cases e) (auto simp: is_task_event_def)
qed

lemma request_not_write: "list_all is_request evs \<Longrightarrow> list_all (\<lambda>e. \<not> is_write e) evs"
proof (induction evs)
  case Nil
  then show ?case by simp
next
  case (Cons e evs)
  then show ?case by (cases e) auto
qed

lemma worker_not_write: "list_all is_worker_event evs \<Longrightarrow> list_all (\<lambda>e. \<not> is_write e) evs"
  using task_not_write worker_is_task by blast

text \<open>
  C1 (as amended). The descriptor file is written at most once in a run, by the main
  thread, after it has handed every task to the executor: when the program ends without
  an exception its trace has exactly one descriptor write, only ends of tasks follow it,
  and the file holds the descriptor. When the program ends with an exception (the
  arguments, the version data, the directories, a dependency path, the synchronous fetch
  of the asset index or its reading went wrong), the descriptor is not written. The
  outcomes of the submitted tasks play no part.
\<close>

theorem descriptor_written_by_main_thread:
  assumes "main E output_dir v w = (r, w')"
  shows "(r = None \<longrightarrow>
           (\<exists>pre d post.
              trace w' = trace w @ pre @ [WroteDescriptor (meta_path output_dir) d] @ post
              \<and> list_all (\<lambda>e. \<not> is_write e) pre
              \<and> list_all is_worker_event post
              \<and> fs w' (meta_path output_dir) = Some (File (json_dumps E d))))
         \<and> (r \<noteq> None \<longrightarrow>
             (\<exists>evs. trace w' = trace w @ evs \<and> list_all (\<lambda>e. \<not> is_write e) evs))"
proof (cases "output_dir = [] \<or> v = []")
  case True
  with assms show ?thesis by (auto simp: main_def)
next
  case False
  obtain rv w1 where g: "get_version_data E v w = (rv, w1)"
    by (cases "get_version_data E v w") auto
  obtain reqs where reqs: "trace w1 = trace w @ reqs" "list_all is_request reqs"
    using get_version_data_effect [OF g] by (auto simp: extends_by_def)
  show ?thesis
  proof (cases rv)
    case (Inl e)
    with assms False g have "r = Some e" "w' = w1" by (simp_all add: main_def)
    then show ?thesis using reqs request_not_write by auto
  next
    case (Inr vd)
    obtain r2 w2 where d: "download_minecraft_structure E output_dir v vd (w1\<lparr>pending := []\<rparr>)
                             = (r2, w2)"
      by (cases "download_minecraft_structure E output_dir v vd (w1\<lparr>pending := []\<rparr>)") auto
    with assms False g Inr have rw: "r = r2" "w' = drain E w2" by (simp_all add: main_def)
    obtain post where post: "trace w' = trace w2 @ post" "list_all is_worker_event post"
      using drain_effect [of w2 E] rw(2) by (auto simp: extends_by_def)
    have k: "keeps (fs w2) (fs w')" using drain_effect [of w2 E] rw(2) by simp
    show ?thesis
    proof (cases r2)
      case None
      from dms_success_summary [OF d [unfolded None]] obtain pre cp rel where
        s: "trace w2 = trace (w1\<lparr>pending := []\<rparr>) @ pre
               @ [WroteDescriptor (meta_path output_dir) (descriptor v vd cp rel)]"
        "list_all is_task_event pre"
        "fs w2 (meta_path output_dir) = Some (File (json_dumps E (descriptor v vd cp rel)))"
        by blast
      have "trace w' = trace w @ (reqs @ pre)
              @ [WroteDescriptor (meta_path output_dir) (descriptor v vd cp rel)] @ post"
        using s(1) reqs(1) post(1) by simp
      moreover have "list_all (\<lambda>e. \<not> is_write e) (reqs @ pre)"
        using request_not_write [OF reqs(2)] task_not_write [OF s(2)] by simp
      moreover have "fs w' (meta_path output_dir)
                       = Some (File (json_dumps E (descriptor v vd cp rel)))"
        using k s(3) by (simp add: keeps_def)
      ultimately show ?thesis using post(2) rw(1) None by blast
    next
      case (Some e)
      from dms_failure [OF d [unfolded Some]] obtain evs where
        e: "trace w2 = trace w1 @ evs" "list_all is_task_event evs"
        by (auto simp: extends_by_def)
      have "trace w' = trace w @ (reqs @ evs @ post)" using e(1) reqs(1) post(1) by simp
      moreover have "list_all (\<lambda>e. \<not> is_write e) (reqs @ evs @ post)"
        using request_not_write [OF reqs(2)] task_not_write [OF e(2)]
          worker_not_write [OF post(2)] by simp
      ultimately show ?thesis using rw(1) Some by blast
    qed
  qed
qed

lemma ex_main_ok: "fst (main ex_env ''out'' ''1.20'' ex_world) = None"
  by code_simp

theorem descriptor_written_by_main_thread_witness:
  "fst (main ex_env ''out'' ''1.20'' ex_world) = None
   \<and> (\<exists>pre d post.
         trace (snd (main ex_env ''out'' ''1.20'' ex_world))
           = trace ex_world @ pre @ [WroteDescriptor (meta_path ''out'') d] @ post
         \<and> list_all (\<lambda>e. \<not> is_write e) pre
         \<and> list_all is_worker_event post
         \<and> fs (snd (main ex_env ''out'' ''1.20'' ex_world)) (meta_path ''out'')
             = Some (File (json_dumps ex_env d)))"
proof -
  have h: "main ex_env ''out'' ''1.20'' ex_world
           = (fst (main ex_env ''out'' ''1.20'' ex_world),
              snd (main ex_env ''out'' ''1.20'' ex_world))"
    by simp
  show ?thesis
    using ex_main_ok descriptor_written_by_main_thread [OF h] by simp
qed

text \<open>
  The claim as the specification states it fails. With workers that start after the
  main thread is done, the descriptor is written before any submitted task has run,
  and it stays although the last task fails with status 404 and leaves no file.
\<close>

theorem descriptor_written_despite_failed_task:
  "fst (main ex_env ''out'' ''1.20'' ex_world) = None
   \<and> trace (snd (main ex_env ''out'' ''1.20'' ex_world)) =
     [RequestsGet (JStr MANIFEST_URL),
      RequestsGet (JStr ''https://h/1.20.json''),
      Submitted (JStr ''https://h/client.jar'') ''out/client.jar'',
      Submitted (JStr ''https://h/lwjgl.jar'') ''out/libraries/org/lwjgl/lwjgl.jar'',
      Submitted (JStr ''https://h/brigadier.jar'') ''out/libraries/com/mojang/brigadier.jar'',
      SessionGet (JStr ''https://h/abc.json''),
      Submitted (JStr ''https://resources.download.minecraft.net/ab/abc123'')
        ''out/assets/objects/ab/abc123'',
      Submitted (JStr ''https://resources.download.minecraft.net/ff/ffee00'')
        ''out/assets/objects/ff/ffee00'',
      WroteDescriptor ''out/nelius.meta'' ex_descriptor,
      SessionGet (JStr ''https://h/client.jar''),
      Finished (JStr ''https://h/client.jar'') ''out/client.jar'' Downloaded,
      SessionGet (JStr ''https://h/lwjgl.jar''),
      Finished (JStr ''https://h/lwjgl.jar'') ''out/libraries/org/lwjgl/lwjgl.jar'' Downloaded,
      SessionGet (JStr ''https://h/brigadier.jar''),
      Finished (JStr ''https://h/brigadier.jar'') ''out/libraries/com/mojang/brigadier.jar''
        Downloaded,
      SessionGet (JStr ''https://resources.download.minecraft.net/ab/abc123''),
      Finished (JStr ''https://resources.download.minecraft.net/ab/abc123'')
        ''out/assets/objects/ab/abc123'' Downloaded,
      SessionGet (JStr ''https://resources.download.minecraft.net/ff/ffee00''),
      Finished (JStr ''https://resources.download.minecraft.net/ff/ffee00'')
        ''out/assets/objects/ff/ffee00'' (Failed (HTTPError 404))]
   \<and> fs (snd (main ex_env ''out'' ''1.20'' ex_world)) ''out/nelius.meta''
       = Some (File ''META'')
   \<and> fs (snd (main ex_env ''out'' ''1.20'' ex_world)) ''out/assets/objects/ff/ffee00'' = None"
  by code_simp

section \<open>Platform filtering and the class path\<close>

lemma applies_iff_not_skipped:
  "declared_constraint (operating_system l) \<Longrightarrow>
   (\<not> skipped_on_host E l) = applies_on_host E l"
  by (auto simp: declared_constraint_def skipped_on_host_def applies_on_host_def
        matches_host_def)

lemma filter_applies:
  "\<forall>l \<in> set libs. declared_constraint (operating_system l) \<Longrightarrow>
   filter (\<lambda>l. \<not> skipped_on_host E l) libs = filter (applies_on_host E) libs"
  by (rule filter_cong) (auto simp: applies_iff_not_skipped)

lemma classpath_loop_strings:
  "classpath_loop wd gd (map JStr cp) acc
     = Inr (acc @ map (\<lambda>r. abspath wd (path_join gd r)) cp)"
  by (induction cp arbitrary: acc) auto

lemma launch_classpath_descriptor:
  "launch_classpath E p (descriptor v vd cp rel)
     = Inr (map (\<lambda>r. abspath (cwd E) (path_join (game_dir E p) r)) cp
            @ [abspath (cwd E) (path_join (game_dir E p) ''client.jar'')])"
  by (simp add: launch_classpath_def descriptor_def game_dir_def classpath_loop_strings Let_def)

lemma launch_minecraft_descriptor:
  assumes "fs w p = Some (File c)" and "json_loads E c = Some (descriptor v vd cp rel)"
  shows "\<exists>cmd. launch_minecraft E p w = Inr cmd
           \<and> cmd ! 3 = JStr (join_with (if platform_system E = ''Windows'' then '';'' else '':'')
                 (map (\<lambda>r. abspath (cwd E) (path_join (game_dir E p) r)) cp
                  @ [abspath (cwd E) (path_join (game_dir E p) ''client.jar'')]))"
  using assms
  by (simp add: launch_minecraft_def read_file_def launch_classpath_descriptor Let_def)
     (simp add: descriptor_def)

lemma last_snoc3: "last (a @ b @ [x]) = x"
  by simp

text \<open>
  C3. When the downloader ends without an exception and every constraint is one of the
  declared values, the class path of the descriptor it has written lists the
  libraries whose constraint is \<^verbatim>\<open>unspecified\<close> or names the host, in the order of the
  detail document, each by its path relative to the output directory. The launcher
  turns this list into absolute paths in the same order and puts \<^verbatim>\<open>client.jar\<close> last;
  the \<^verbatim>\<open>-cp\<close> argument of its command is that list, joined.
\<close>

theorem classpath_is_filtered_libraries:
  assumes "download_minecraft_structure E output_dir v vd w = (None, w')"
    and "\<forall>l \<in> set (libraries vd). declared_constraint (operating_system l)"
  shows "\<exists>cp rel.
           last (trace w') = WroteDescriptor (meta_path output_dir) (descriptor v vd cp rel)
           \<and> fs w' (meta_path output_dir) = Some (File (json_dumps E (descriptor v vd cp rel)))
           \<and> map Inr cp = map (classpath_entry E output_dir)
                             (filter (applies_on_host E) (libraries vd))
           \<and> launch_classpath E (meta_path output_dir) (descriptor v vd cp rel)
               = Inr (map (\<lambda>r. abspath (cwd E) (path_join (game_dir E (meta_path output_dir)) r)) cp
                      @ [abspath (cwd E)
                           (path_join (game_dir E (meta_path output_dir)) ''client.jar'')])
           \<and> (json_loads E (json_dumps E (descriptor v vd cp rel))
                 = Some (descriptor v vd cp rel)
               \<longrightarrow> (\<exists>cmd. launch_minecraft E (meta_path output_dir) w' = Inr cmd
                      \<and> cmd ! 3 =
                          JStr (join_with (if platform_system E = ''Windows'' then '';'' else '':'')
                            (map (\<lambda>r. abspath (cwd E)
                                         (path_join (game_dir E (meta_path output_dir)) r)) cp
                             @ [abspath (cwd E)
                                  (path_join (game_dir E (meta_path output_dir))
                                     ''client.jar'')]))))"
proof -
  from dms_success_summary [OF assms(1)] obtain pre cp rel where
    s: "trace w' = trace w @ pre @ [WroteDescriptor (meta_path output_dir) (descriptor v vd cp rel)]"
    "map Inr cp = map (classpath_entry E output_dir)
                        (filter (\<lambda>l. \<not> skipped_on_host E l) (libraries vd))"
    "fs w' (meta_path output_dir) = Some (File (json_dumps E (descriptor v vd cp rel)))"
    by blast
  have a: "last (trace w') = WroteDescriptor (meta_path output_dir) (descriptor v vd cp rel)"
    unfolding s(1) by (rule last_snoc3)
  have b: "map Inr cp = map (classpath_entry E output_dir)
                             (filter (applies_on_host E) (libraries vd))"
    using s(2) filter_applies [OF assms(2)] by simp
  show ?thesis
    using a b s(3) launch_classpath_descriptor launch_minecraft_descriptor [OF s(3)]
    by blast
qed

text \<open>
  C10. When the downloader ends without an exception, a library whose constraint is
  none of \<^verbatim>\<open>windows\<close>, \<^verbatim>\<open>linux\<close> and \<^verbatim>\<open>osx\<close> has been handed to the executor and stands
  in the class path of the descriptor, whatever the host is.
\<close>

theorem unrecognised_constraint_included:
  assumes "download_minecraft_structure E output_dir v vd w = (None, w')"
    and "l \<in> set (libraries vd)"
    and "operating_system l \<noteq> JStr ''windows''"
    and "operating_system l \<noteq> JStr ''linux''"
    and "operating_system l \<noteq> JStr ''osx''"
  shows "library_task output_dir l \<in> set (trace w')
         \<and> (\<exists>cp rel r.
               last (trace w') = WroteDescriptor (meta_path output_dir) (descriptor v vd cp rel)
               \<and> classpath_entry E output_dir l = Inr r \<and> r \<in> set cp)"
proof -
  let ?libs = "filter (\<lambda>l. \<not> skipped_on_host E l) (libraries vd)"
  from dms_success_summary [OF assms(1)] obtain pre cp rel ods where
    s: "trace w' = trace w @ pre @ [WroteDescriptor (meta_path output_dir) (descriptor v vd cp rel)]"
    "filter is_submit pre =
          Submitted (client_jar_url vd) (client_path output_dir)
          # map (library_task output_dir) ?libs
          @ map (\<lambda>od. object_task output_dir (hash_of od)) ods"
    "map Inr cp = map (classpath_entry E output_dir) ?libs"
    by blast
  have l: "l \<in> set ?libs" using assms(2-5) by (simp add: skipped_on_host_def)
  then have "library_task output_dir l \<in> set (filter is_submit pre)"
    unfolding s(2) by simp
  then have t: "library_task output_dir l \<in> set (trace w')"
    unfolding s(1) by simp
  have "classpath_entry E output_dir l \<in> set (map Inr cp)"
    unfolding s(3) using l by simp
  then obtain r where r: "classpath_entry E output_dir l = Inr r" "r \<in> set cp" by auto
  have "last (trace w') = WroteDescriptor (meta_path output_dir) (descriptor v vd cp rel)"
    unfolding s(1) by (rule last_snoc3)
  with t r show ?thesis by blast
qed

lemma ex_mixed_ok:
  "fst (download_minecraft_structure ex_env ''out'' ''1.20'' ex_mixed_data ex_world) = None"
  by code_simp

lemma ex_mixed_last:
  "last (trace (snd (download_minecraft_structure ex_env ''out'' ''1.20'' ex_mixed_data ex_world)))
   = WroteDescriptor ''out/nelius.meta'' ex_descriptor"
  by code_simp

lemma ex_launch_classpath:
  "launch_classpath ex_env ''out/nelius.meta'' ex_descriptor
   = Inr [''/home/user/out/libraries/org/lwjgl/lwjgl.jar'',
          ''/home/user/out/libraries/com/mojang/brigadier.jar'',
          ''/home/user/out/client.jar'']"
  by code_simp

lemma ex_mixed_declared:
  "\<forall>l \<in> set (libraries ex_mixed_data). declared_constraint (operating_system l)"
  by (simp add: ex_mixed_data_def ex_version_data_def ex_lib_windows_def declared_constraint_def)

lemma ex_meta_path: "meta_path ''out'' = ''out/nelius.meta''"
  by (simp add: meta_path_def path_join_def)

theorem classpath_is_filtered_libraries_witness:
  "fst (download_minecraft_structure ex_env ''out'' ''1.20'' ex_mixed_data ex_world) = None
   \<and> last (trace (snd (download_minecraft_structure ex_env ''out'' ''1.20'' ex_mixed_data
                        ex_world)))
     = WroteDescriptor ''out/nelius.meta'' ex_descriptor
   \<and> launch_classpath ex_env ''out/nelius.meta'' ex_descriptor
     = Inr [''/home/user/out/libraries/org/lwjgl/lwjgl.jar'',
            ''/home/user/out/libraries/com/mojang/brigadier.jar'',
            ''/home/user/out/client.jar'']
   \<and> (\<exists>cmd. launch_minecraft ex_env ''out/nelius.meta''
               (snd (download_minecraft_structure ex_env ''out'' ''1.20'' ex_mixed_data ex_world))
             = Inr cmd
           \<and> cmd ! 3 = JStr (join_with '':''
               [''/home/user/out/libraries/org/lwjgl/lwjgl.jar'',
                ''/home/user/out/libraries/com/mojang/brigadier.jar'',
                ''/home/user/out/client.jar'']))"
proof -
  let ?run = "download_minecraft_structure ex_env ''out'' ''1.20'' ex_mixed_data ex_world"
  have h: "?run = (None, snd ?run)"
    using ex_mixed_ok by (metis prod.collapse)
  from classpath_is_filtered_libraries [OF h ex_mixed_declared] obtain cp rel where
    a: "last (trace (snd ?run))
          = WroteDescriptor (meta_path ''out'') (descriptor ''1.20'' ex_mixed_data cp rel)"
    and b: "launch_classpath ex_env (meta_path ''out'') (descriptor ''1.20'' ex_mixed_data cp rel)
            = Inr (map (\<lambda>r. abspath (cwd ex_env) (path_join (game_dir ex_env (meta_path ''out'')) r)) cp
                      @ [abspath (cwd ex_env)
                           (path_join (game_dir ex_env (meta_path ''out'')) ''client.jar'')])"
    and c: "json_loads ex_env (json_dumps ex_env (descriptor ''1.20'' ex_mixed_data cp rel))
                 = Some (descriptor ''1.20'' ex_mixed_data cp rel)
            \<longrightarrow> (\<exists>cmd. launch_minecraft ex_env (meta_path ''out'') (snd ?run) = Inr cmd
                      \<and> cmd ! 3 =
                          JStr (join_with (if platform_system ex_env = ''Windows'' then '';'' else '':'')
                            (map (\<lambda>r. abspath (cwd ex_env)
                                         (path_join (game_dir ex_env (meta_path ''out'')) r)) cp
                             @ [abspath (cwd ex_env)
                                  (path_join (game_dir ex_env (meta_path ''out''))
                                     ''client.jar'')])))"
    by blast
  have d: "descriptor ''1.20'' ex_mixed_data cp rel = ex_descriptor"
    using a ex_mixed_last by simp
  have e: "json_loads ex_env (json_dumps ex_env ex_descriptor) = Some ex_descriptor"
    by (simp add: ex_env_def ex_loads_def)
  have f: "platform_system ex_env \<noteq> ''Windows''" by (simp add: ex_env_def)
  let ?L = "map (\<lambda>r. abspath (cwd ex_env) (path_join (game_dir ex_env (meta_path ''out'')) r)) cp
              @ [abspath (cwd ex_env)
                   (path_join (game_dir ex_env (meta_path ''out'')) ''client.jar'')]"
  have L: "?L = [''/home/user/out/libraries/org/lwjgl/lwjgl.jar'',
                 ''/home/user/out/libraries/com/mojang/brigadier.jar'',
                 ''/home/user/out/client.jar'']"
    using b ex_launch_classpath unfolding d ex_meta_path by simp
  from c d e f obtain cmd where
    cmd: "launch_minecraft ex_env (meta_path ''out'') (snd ?run) = Inr cmd"
      "cmd ! 3 = JStr (join_with '':'' ?L)"
    by auto
  have "cmd ! 3 = JStr (join_with '':''
               [''/home/user/out/libraries/org/lwjgl/lwjgl.jar'',
                ''/home/user/out/libraries/com/mojang/brigadier.jar'',
                ''/home/user/out/client.jar''])"
    using cmd(2) unfolding L .
  with cmd(1) have "\<exists>cmd. launch_minecraft ex_env ''out/nelius.meta'' (snd ?run) = Inr cmd
           \<and> cmd ! 3 = JStr (join_with '':''
               [''/home/user/out/libraries/org/lwjgl/lwjgl.jar'',
                ''/home/user/out/libraries/com/mojang/brigadier.jar'',
                ''/home/user/out/client.jar''])"
    unfolding ex_meta_path by blast
  with ex_mixed_ok ex_mixed_last ex_launch_classpath show ?thesis by blast
qed

lemma ex_freebsd_ok:
  "fst (download_minecraft_structure ex_env ''out'' ''1.20'' ex_freebsd_data ex_world) = None"
  by code_simp

theorem unrecognised_constraint_included_witness:
  "library_task ''out'' ex_lib_freebsd
     \<in> set (trace (snd (download_minecraft_structure ex_env ''out'' ''1.20'' ex_freebsd_data
                        ex_world)))
   \<and> (\<exists>cp rel r.
         last (trace (snd (download_minecraft_structure ex_env ''out'' ''1.20'' ex_freebsd_data
                        ex_world)))
           = WroteDescriptor (meta_path ''out'') (descriptor ''1.20'' ex_freebsd_data cp rel)
         \<and> classpath_entry ex_env ''out'' ex_lib_freebsd = Inr r \<and> r \<in> set cp)"
proof -
  let ?run = "download_minecraft_structure ex_env ''out'' ''1.20'' ex_freebsd_data ex_world"
  have h: "?run = (None, snd ?run)"
    using ex_freebsd_ok by (metis prod.collapse)
  have m: "ex_lib_freebsd \<in> set (libraries ex_freebsd_data)"
    by (simp add: ex_freebsd_data_def)
  have o: "operating_system ex_lib_freebsd \<noteq> JStr ''windows''"
    "operating_system ex_lib_freebsd \<noteq> JStr ''linux''"
    "operating_system ex_lib_freebsd \<noteq> JStr ''osx''"
    by (simp_all add: ex_lib_freebsd_def)
  show ?thesis
    using unrecognised_constraint_included [OF h m o] .
qed

section \<open>Object addressing and version resolution\<close>

lemma hex_hash_no_slash: "is_hex_hash h \<Longrightarrow> CHR ''/'' \<notin> set h"
  by (auto simp: is_hex_hash_def list_all_iff)

lemma path_join_rel: "b \<noteq> [] \<Longrightarrow> hd b \<noteq> CHR ''/'' \<Longrightarrow>
  path_join a b = (if a = [] \<or> last a = CHR ''/'' then a @ b else a @ ''/'' @ b)"
  by (simp add: path_join_def)

lemma path_join_nonempty: "b \<noteq> [] \<Longrightarrow> path_join a b \<noteq> []"
  by (simp add: path_join_def)

lemma objects_dir_end: "objects_dir output_dir \<noteq> [] \<and> last (objects_dir output_dir) = CHR ''s''"
  by (simp add: objects_dir_def path_join_nonempty last_path_join)

lemma object_path_shape:
  assumes "is_hex_hash h"
  shows "path_join (path_join (objects_dir output_dir) (take 2 h)) h
         = path_join output_dir (''assets/objects/'' @ take 2 h @ ''/'' @ h)"
proof -
  have ns: "CHR ''/'' \<notin> set h" using assms by (rule hex_hash_no_slash)
  have ne: "h \<noteq> []" using assms by (simp add: is_hex_hash_def)
  have h1: "hd h \<noteq> CHR ''/''" using ns ne by (cases h) auto
  have t: "take 2 h \<noteq> []" "hd (take 2 h) \<noteq> CHR ''/''" using ne h1 by (cases h; simp)+
  have "last (take 2 h) \<in> set h"
    using t(1) by (meson in_set_takeD last_in_set)
  then have t3: "last (take 2 h) \<noteq> CHR ''/''" using ns by auto
  have o: "objects_dir output_dir
           = (if output_dir = [] \<or> last output_dir = CHR ''/'' then output_dir @ ''assets/objects''
              else output_dir @ ''/assets/objects'')"
    by (simp add: objects_dir_def path_join_def)
  have j1: "path_join (objects_dir output_dir) (take 2 h) = objects_dir output_dir @ ''/'' @ take 2 h"
    using t objects_dir_end [of output_dir] by (simp add: path_join_rel)
  have "path_join (objects_dir output_dir @ ''/'' @ take 2 h) h
             = (objects_dir output_dir @ ''/'' @ take 2 h) @ ''/'' @ h"
    using ne h1 t t3 by (simp add: path_join_rel)
  then have a: "path_join (path_join (objects_dir output_dir) (take 2 h)) h
             = objects_dir output_dir @ ''/'' @ take 2 h @ ''/'' @ h"
    unfolding j1 by simp
  have b: "path_join output_dir (''assets/objects/'' @ take 2 h @ ''/'' @ h)
             = objects_dir output_dir @ ''/'' @ take 2 h @ ''/'' @ h"
    by (simp add: path_join_rel o)
  show ?thesis unfolding a b ..
qed

lemma read_asset_index_values:
  "f p = Some (File c) \<Longrightarrow> json_loads E c = Some j \<Longrightarrow>
   py_subscript j ''objects'' = Inr (JObj kv) \<Longrightarrow> read_asset_index E p f = Inr (map snd kv)"
  by (simp add: read_asset_index_def read_file_def)

text \<open>
  C7. When the downloader ends without an exception, every entry of the asset index
  on disk has a string hash \<open>h\<close>, and the task with the URL
  \<^verbatim>\<open><RESOURCES_BASE_URL>/<h[0:2]>/<h>\<close> and the path
  \<^verbatim>\<open>os.path.join(objects_directory, h[0:2], h)\<close> has been handed to the executor; for a
  content hash that path is \<^verbatim>\<open>assets/objects/<h[0:2]>/<h>\<close> below the output directory.
  The entries are the values of the \<^verbatim>\<open>objects\<close> dictionary: the logical names are dropped
  when the index is read.
\<close>

theorem objects_addressed_by_hash:
  assumes "download_minecraft_structure E output_dir v vd w = (None, w')"
  shows "(\<exists>ods. read_asset_index E (index_path E output_dir vd) (fs w') = Inr ods
            \<and> (\<forall>od \<in> set ods. \<exists>h.
                  py_subscript od ''hash'' = Inr (JStr h)
                  \<and> Submitted (JStr (RESOURCES_BASE_URL @ ''/'' @ take 2 h @ ''/'' @ h))
                       (path_join (path_join (objects_dir output_dir) (take 2 h)) h)
                     \<in> set (trace w')
                  \<and> (is_hex_hash h \<longrightarrow>
                       path_join (path_join (objects_dir output_dir) (take 2 h)) h
                       = path_join output_dir (''assets/objects/'' @ take 2 h @ ''/'' @ h))))
         \<and> (f p = Some (File c) \<and> json_loads E c = Some j
              \<and> py_subscript j ''objects'' = Inr (JObj kv)
            \<longrightarrow> read_asset_index E p f = Inr (map snd kv))"
proof -
  let ?libs = "filter (\<lambda>l. \<not> skipped_on_host E l) (libraries vd)"
  from dms_success_summary [OF assms] obtain pre cp rel ods where
    s: "trace w' = trace w @ pre @ [WroteDescriptor (meta_path output_dir) (descriptor v vd cp rel)]"
    "filter is_submit pre =
          Submitted (client_jar_url vd) (client_path output_dir)
          # map (library_task output_dir) ?libs
          @ map (\<lambda>od. object_task output_dir (hash_of od)) ods"
    "read_asset_index E (index_path E output_dir vd) (fs w') = Inr ods"
    "\<forall>od \<in> set ods. py_subscript od ''hash'' = Inr (JStr (hash_of od))"
    by blast
  have "object_task output_dir (hash_of od) \<in> set (trace w')" if "od \<in> set ods" for od
  proof -
    have "object_task output_dir (hash_of od) \<in> set (filter is_submit pre)"
      unfolding s(2) using that by simp
    then show ?thesis unfolding s(1) by simp
  qed
  then have "\<forall>od \<in> set ods. \<exists>h.
                  py_subscript od ''hash'' = Inr (JStr h)
                  \<and> Submitted (JStr (RESOURCES_BASE_URL @ ''/'' @ take 2 h @ ''/'' @ h))
                       (path_join (path_join (objects_dir output_dir) (take 2 h)) h)
                     \<in> set (trace w')
                  \<and> (is_hex_hash h \<longrightarrow>
                       path_join (path_join (objects_dir output_dir) (take 2 h)) h
                       = path_join output_dir (''assets/objects/'' @ take 2 h @ ''/'' @ h))"
    using s(4) object_path_shape by (auto simp: object_task_def)
  then show ?thesis using s(3) read_asset_index_values by blast
qed

lemma ex_run_ok:
  "fst (download_minecraft_structure ex_env ''out'' ''1.20'' ex_version_data ex_world) = None"
  by code_simp

lemma ex_run_index:
  "read_asset_index ex_env (index_path ex_env ''out'' ex_version_data)
     (fs (snd (download_minecraft_structure ex_env ''out'' ''1.20'' ex_version_data ex_world)))
   = Inr [JObj [(''hash'', JStr ''abc123''), (''size'', JNum 3)],
          JObj [(''hash'', JStr ''ffee00''), (''size'', JNum 5)]]"
  by code_simp

theorem objects_addressed_by_hash_witness:
  "Submitted (JStr ''https://resources.download.minecraft.net/ab/abc123'')
     (path_join ''out'' ''assets/objects/ab/abc123'')
   \<in> set (trace (snd (download_minecraft_structure ex_env ''out'' ''1.20'' ex_version_data
                       ex_world)))"
proof -
  let ?run = "download_minecraft_structure ex_env ''out'' ''1.20'' ex_version_data ex_world"
  let ?od = "JObj [(''hash'', JStr ''abc123''), (''size'', JNum 3)]"
  have h: "?run = (None, snd ?run)"
    using ex_run_ok by (metis prod.collapse)
  from objects_addressed_by_hash [OF h] obtain ods where
    a: "read_asset_index ex_env (index_path ex_env ''out'' ex_version_data) (fs (snd ?run))
          = Inr ods"
    and b: "\<forall>od \<in> set ods. \<exists>h.
                  py_subscript od ''hash'' = Inr (JStr h)
                  \<and> Submitted (JStr (RESOURCES_BASE_URL @ ''/'' @ take 2 h @ ''/'' @ h))
                       (path_join (path_join (objects_dir ''out'') (take 2 h)) h)
                     \<in> set (trace (snd ?run))
                  \<and> (is_hex_hash h \<longrightarrow>
                       path_join (path_join (objects_dir ''out'') (take 2 h)) h
                       = path_join ''out'' (''assets/objects/'' @ take 2 h @ ''/'' @ h))"
    by blast
  have "?od \<in> set ods" using a ex_run_index by auto
  with b obtain h where
    c: "py_subscript ?od ''hash'' = Inr (JStr h)"
    "Submitted (JStr (RESOURCES_BASE_URL @ ''/'' @ take 2 h @ ''/'' @ h))
         (path_join (path_join (objects_dir ''out'') (take 2 h)) h) \<in> set (trace (snd ?run))"
    "is_hex_hash h \<longrightarrow>
       path_join (path_join (objects_dir ''out'') (take 2 h)) h
       = path_join ''out'' (''assets/objects/'' @ take 2 h @ ''/'' @ h)"
    by blast
  from c(1) have e: "h = ''abc123''" by simp
  have x: "is_hex_hash ''abc123''" by (simp add: is_hex_hash_def)
  show ?thesis
    using c(2,3) x unfolding e by (simp add: RESOURCES_BASE_URL_def)
qed

lemma find_version_none:
  "\<forall>ver \<in> set vs. mv_id ver \<noteq> t \<Longrightarrow> find_version t vs = None"
  by (induction vs) auto

text \<open>
  C4. When the manifest has been fetched and parsed and no version in it has the
  requested identifier (compared as a string, so a difference of case is a difference),
  \<^verbatim>\<open>get_version_data\<close> raises \<^verbatim>\<open>ValueError("Invalid version provided: not found")\<close> and the
  program ends with it. Up to then the only request is the one for the manifest: no
  file is touched, nothing is downloaded and nothing is handed to an executor.
\<close>

theorem missing_version_fails_before_downloads:
  assumes "get_manifest E w = (Inr m, w1)"
    and "\<forall>ver \<in> set (versions m). mv_id ver \<noteq> JStr target"
  shows "get_version_data E target w
           = (Inl (ValueError ''Invalid version provided: not found''), w1)
         \<and> fs w1 = fs w \<and> pending w1 = pending w
         \<and> trace w1 = trace w @ [RequestsGet (JStr MANIFEST_URL)]
         \<and> (output_dir \<noteq> [] \<and> target \<noteq> [] \<longrightarrow>
              main E output_dir target w
                = (Some (ValueError ''Invalid version provided: not found''), w1))"
proof -
  have f: "find_version (JStr target) (versions m) = None"
    using assms(2) by (rule find_version_none)
  have g: "get_version_data E target w
           = (Inl (ValueError ''Invalid version provided: not found''), w1)"
    using assms(1) f by (simp add: get_version_data_def)
  have w1: "w1 = w\<lparr>trace := trace w @ [RequestsGet (JStr MANIFEST_URL)]\<rparr>"
    using assms(1) by (rule get_manifest_effect)
  show ?thesis using g w1 by (simp add: main_def)
qed

lemma ex_get_manifest: "fst (get_manifest ex_env ex_world) = Inr ex_manifest_parsed"
  by code_simp

theorem missing_version_fails_before_downloads_witness:
  "main ex_env ''out'' ''23W31A'' ex_world
     = (Some (ValueError ''Invalid version provided: not found''),
        snd (get_manifest ex_env ex_world))
   \<and> fs (snd (get_manifest ex_env ex_world)) = fs ex_world
   \<and> pending (snd (get_manifest ex_env ex_world)) = pending ex_world
   \<and> trace (snd (get_manifest ex_env ex_world))
       = trace ex_world @ [RequestsGet (JStr MANIFEST_URL)]"
proof -
  have h: "get_manifest ex_env ex_world = (Inr ex_manifest_parsed, snd (get_manifest ex_env ex_world))"
    using ex_get_manifest by (metis prod.collapse)
  have n: "\<forall>ver \<in> set (versions ex_manifest_parsed). mv_id ver \<noteq> JStr ''23W31A''"
    by (simp add: ex_manifest_parsed_def)
  show ?thesis
    using missing_version_fails_before_downloads [OF h n, of "''out''"] by simp
qed

section \<open>Skipping what is already there\<close>

lemma calm_trans: "calm a b \<Longrightarrow> calm b c \<Longrightarrow> calm a c"
  unfolding calm_def using extends_by_trans by auto

lemma calm_refl: "quiet w \<Longrightarrow> calm w w"
  by (simp add: calm_def extends_by_refl)

lemma run_pending_calm: "quiet w \<Longrightarrow> calm w (run_pending E n w)"
proof (induction n arbitrary: w)
  case 0
  then show ?case by (simp add: calm_refl)
next
  case (Suc n)
  show ?case
  proof (cases "pending w")
    case Nil
    then show ?thesis using Suc.prems by (simp add: calm_refl)
  next
    case (Cons t ts)
    obtain url path where t: "t = (url, path)" by (cases t) auto
    have e: "fs w path \<noteq> None" using Suc.prems Cons t by (simp add: quiet_def)
    then have d: "download_file E url path (w\<lparr>pending := ts\<rparr>) = (Skipped, w\<lparr>pending := ts\<rparr>)"
      by (simp add: download_file_skip)
    let ?w2 = "w\<lparr>pending := ts, trace := trace w @ [Finished url path Skipped]\<rparr>"
    have r: "run_pending E (Suc n) w = run_pending E n ?w2"
      using Cons t d by simp
    have q: "quiet ?w2" using Suc.prems Cons by (simp add: quiet_def)
    have c: "calm w ?w2" using q by (simp add: calm_def extends_by_def)
    show ?thesis unfolding r using c Suc.IH [OF q] by (rule calm_trans)
  qed
qed

lemma workers_run_calm: "quiet w \<Longrightarrow> calm w (workers_run E w)"
proof (cases "schedule w")
  case Nil
  assume "quiet w"
  then show ?thesis using Nil by (simp add: workers_run_def calm_refl)
next
  case (Cons n ns)
  assume q: "quiet w"
  then have q': "quiet (w\<lparr>schedule := ns\<rparr>)" by (simp add: quiet_def)
  have "calm w (w\<lparr>schedule := ns\<rparr>)" using q' by (simp add: calm_def extends_by_def)
  moreover have "workers_run E w = run_pending E n (w\<lparr>schedule := ns\<rparr>)"
    using Cons by (simp add: workers_run_def)
  ultimately show ?thesis using run_pending_calm [OF q'] calm_trans by metis
qed

lemma submit_calm: "quiet w \<Longrightarrow> fs w p \<noteq> None \<Longrightarrow> calm w (submit E u p w)"
proof -
  assume q: "quiet w" and p: "fs w p \<noteq> None"
  let ?w1 = "w\<lparr>pending := pending w @ [(u, p)], trace := trace w @ [Submitted u p]\<rparr>"
  have q1: "quiet ?w1" using q p by (simp add: quiet_def)
  have "calm w ?w1" using q1 by (simp add: calm_def extends_by_def)
  then show ?thesis
    unfolding submit_def using workers_run_calm [OF q1] by (rule calm_trans)
qed

lemma libraries_loop_calm:
  "quiet w \<Longrightarrow>
   \<forall>l \<in> set libs. \<not> skipped_on_host E l \<longrightarrow> fs w (library_path output_dir l) \<noteq> None \<Longrightarrow>
   libraries_loop E output_dir (libraries_dir output_dir) libs cp w = (r, w') \<Longrightarrow> calm w w'"
proof (induction libs arbitrary: cp w)
  case Nil
  then show ?case by (simp add: calm_refl)
next
  case (Cons l libs)
  show ?case
  proof (cases "skipped_on_host E l")
    case True
    with Cons show ?thesis by simp
  next
    case False
    show ?thesis
    proof (cases "download_path l")
      case (JStr p)
      let ?dp = "path_join (libraries_dir output_dir) p"
      let ?w1 = "submit E (download_url l) ?dp w"
      have "fs w ?dp \<noteq> None"
        using Cons.prems(2) False by (simp add: library_path_def the_str_def JStr)
      then have c: "calm w ?w1" using Cons.prems(1) by (simp add: submit_calm)
      then have q1: "quiet ?w1" and f1: "fs ?w1 = fs w" by (simp_all add: calm_def)
      show ?thesis
      proof (cases "relpath (cwd E) ?dp output_dir")
        case (Inl e)
        with Cons.prems(3) False JStr have "w' = ?w1" by (simp add: Let_def)
        with c show ?thesis by simp
      next
        case (Inr rp)
        with Cons.prems(3) False JStr
        have "libraries_loop E output_dir (libraries_dir output_dir) libs (cp @ [rp]) ?w1
                = (r, w')"
          by (simp add: Let_def)
        moreover have "\<forall>l \<in> set libs. \<not> skipped_on_host E l
                          \<longrightarrow> fs ?w1 (library_path output_dir l) \<noteq> None"
          using Cons.prems(2) f1 by simp
        ultimately have "calm ?w1 w'" using Cons.IH q1 by blast
        with c show ?thesis by (rule calm_trans)
      qed
    qed (use Cons.prems False in \<open>auto simp: calm_refl\<close>)
  qed
qed

lemma objects_loop_calm:
  "quiet w \<Longrightarrow>
   \<forall>od \<in> set ods. fs w (object_path output_dir (hash_of od)) \<noteq> None \<Longrightarrow>
   objects_loop E (objects_dir output_dir) ods w = (r, w') \<Longrightarrow> calm w w'"
proof (induction ods arbitrary: w)
  case Nil
  then show ?case by (simp add: calm_refl)
next
  case (Cons od ods)
  show ?case
  proof (cases "py_subscript od ''hash''")
    case (Inl e)
    with Cons.prems show ?thesis by (simp add: calm_refl)
  next
    case (Inr hv)
    show ?thesis
    proof (cases hv)
      case (JStr h)
      let ?u = "JStr (RESOURCES_BASE_URL @ ''/'' @ take 2 h @ ''/'' @ h)"
      let ?p = "path_join (path_join (objects_dir output_dir) (take 2 h)) h"
      let ?w1 = "submit E ?u ?p w"
      have h: "hash_of od = h" by (simp add: hash_of_def Inr JStr)
      have "fs w ?p \<noteq> None" using Cons.prems(2) h by (simp add: object_path_def)
      then have c: "calm w ?w1" using Cons.prems(1) by (simp add: submit_calm)
      then have q1: "quiet ?w1" and f1: "fs ?w1 = fs w" by (simp_all add: calm_def)
      from Cons.prems(3) Inr JStr
      have "objects_loop E (objects_dir output_dir) ods ?w1 = (r, w')"
        by (simp add: Let_def)
      moreover have "\<forall>od \<in> set ods. fs ?w1 (object_path output_dir (hash_of od)) \<noteq> None"
        using Cons.prems(2) f1 by simp
      ultimately have "calm ?w1 w'" using Cons.IH q1 by blast
      with c show ?thesis by (rule calm_trans)
    qed (use Cons.prems Inr in \<open>auto simp: calm_refl\<close>)
  qed
qed

lemma quiet_keeps: "quiet w \<Longrightarrow> keeps (fs w) f \<Longrightarrow> quiet (w\<lparr>fs := f\<rparr>)"
  by (auto simp: quiet_def keeps_def list_all_iff)

lemma calm_extends: "calm a b \<Longrightarrow> extends_by (\<lambda>e. \<not> is_session_get e) a b"
  by (simp add: calm_def)

lemma dms_calm:
  assumes run: "download_minecraft_structure E output_dir v vd w = (r, w')"
    and q: "quiet w"
    and pop: "list_all (\<lambda>p. fs w p \<noteq> None) (planned_paths E output_dir vd (fs w))"
  shows "extends_by (\<lambda>e. \<not> is_session_get e) w w' \<and> quiet w'"
proof -
  let ?ds = "[output_dir, libraries_dir output_dir, objects_dir output_dir, indexes_dir output_dir]"
  let ?idx = "index_path E output_dir vd"
  obtain r1 f1 where m: "makedirs_all ?ds (fs w) = (r1, f1)"
    by (cases "makedirs_all ?ds (fs w)") auto
  have k: "keeps (fs w) f1" using makedirs_all_adds [OF m] by (rule adds_dirs_keeps)
  let ?W0 = "w\<lparr>fs := f1\<rparr>"
  have q0: "quiet ?W0" using q k by (rule quiet_keeps)
  have c0: "extends_by (\<lambda>e. \<not> is_session_get e) w ?W0" by (simp add: extends_by_def)
  have ex: "fs w p \<noteq> None \<Longrightarrow> f1 p \<noteq> None" for p using k by (auto simp: keeps_def)
  have p_client: "f1 (client_path output_dir) \<noteq> None"
    using pop ex by (simp add: planned_paths_def)
  have p_libs: "\<forall>l \<in> set (libraries vd). \<not> skipped_on_host E l
                  \<longrightarrow> f1 (library_path output_dir l) \<noteq> None"
    using pop ex by (simp add: planned_paths_def list_all_iff)
  have p_idx: "f1 ?idx \<noteq> None" "f1 ?idx = fs w ?idx"
    using pop ex k by (simp_all add: planned_paths_def keeps_def)
  have ra: "read_asset_index E ?idx f1 = read_asset_index E ?idx (fs w)"
    using p_idx(2) by (rule read_asset_index_cong)
  have p_objs: "\<forall>od \<in> set ods. f1 (object_path output_dir (hash_of od)) \<noteq> None"
    if "read_asset_index E ?idx f1 = Inr ods" for ods
    using pop ex that ra by (simp add: planned_paths_def list_all_iff)
  let ?w1 = "submit E (client_jar_url vd) (client_path output_dir) ?W0"
  have c1: "calm ?W0 ?w1" using q0 p_client by (simp add: submit_calm)
  obtain rl w2 where l: "libraries_loop E output_dir (libraries_dir output_dir) (libraries vd) []
                           ?w1 = (rl, w2)"
    by (cases "libraries_loop E output_dir (libraries_dir output_dir) (libraries vd) [] ?w1") auto
  have "calm ?w1 w2"
    using libraries_loop_calm [OF _ _ l] c1 p_libs by (simp add: calm_def)
  with c1 have c2: "calm ?W0 w2" by (rule calm_trans)
  let ?w3 = "workers_run E w2"
  have q2: "quiet w2" using c2 by (simp add: calm_def)
  have "calm w2 ?w3" using q2 by (rule workers_run_calm)
  with c2 have c3: "calm ?W0 ?w3" by (rule calm_trans)
  have f3: "fs ?w3 = f1" using c3 by (simp add: calm_def)
  have d: "download_file E (asset_index_url vd) ?idx ?w3 = (Skipped, ?w3)"
    using p_idx(1) f3 by (simp add: download_file_skip)
  have c4: "calm ?W0 w4"
    if "read_asset_index E ?idx (fs ?w3) = Inr ods"
      and "objects_loop E (objects_dir output_dir) ods ?w3 = (ro, w4)" for ods ro w4
  proof -
    have "\<forall>od \<in> set ods. fs ?w3 (object_path output_dir (hash_of od)) \<noteq> None"
      using p_objs that(1) f3 by simp
    then have "calm ?w3 w4"
      using objects_loop_calm [OF _ _ that(2)] c3 by (simp add: calm_def)
    with c3 show ?thesis by (rule calm_trans)
  qed
  have wd: "extends_by (\<lambda>e. \<not> is_session_get e) w4 w' \<and> quiet w'"
    if "calm ?W0 w4" and "write_descriptor E output_dir v vd cp w4 = (r, w')" for cp w4
  proof -
    have "quiet w4" using that(1) by (simp add: calm_def)
    then show ?thesis
      using that(2)
      by (fastforce simp: write_descriptor_def Let_def extends_by_def quiet_def list_all_iff
            split: sum.splits dest!: open_write_new)
  qed
  have fin: "extends_by (\<lambda>e. \<not> is_session_get e) w x \<and> quiet x" if "calm ?W0 x" for x
    using that c0 extends_by_trans by (auto simp: calm_def)
  from dms_decompose [OF run] show ?thesis
  proof (elim disjE exE conjE)
    fix e f1'
    assume "makedirs_all ?ds (fs w) = (Some e, f1')" and "w' = w\<lparr>fs := f1'\<rparr>"
    with m have "w' = ?W0" by simp
    then show ?thesis using fin calm_refl [OF q0] by simp
  next
    fix f1' rl' w2' e
    assume "makedirs_all ?ds (fs w) = (None, f1')"
      and "libraries_loop E output_dir (libraries_dir output_dir) (libraries vd) []
             (submit E (client_jar_url vd) (client_path output_dir) (w\<lparr>fs := f1'\<rparr>)) = (rl', w2')"
      and "w' = w2'"
    with m l have "w' = w2" by simp
    then show ?thesis using fin c2 by simp
  next
    fix f1' rl' w2' cp out3 w3' e
    assume "makedirs_all ?ds (fs w) = (None, f1')"
      and "libraries_loop E output_dir (libraries_dir output_dir) (libraries vd) []
             (submit E (client_jar_url vd) (client_path output_dir) (w\<lparr>fs := f1'\<rparr>)) = (rl', w2')"
      and "download_file E (asset_index_url vd) ?idx (workers_run E w2') = (out3, w3')"
      and "out3 = Failed e"
    with m l d show ?thesis by simp
  next
    fix f1' rl' w2' cp out3 w3' e
    assume "makedirs_all ?ds (fs w) = (None, f1')"
      and "libraries_loop E output_dir (libraries_dir output_dir) (libraries vd) []
             (submit E (client_jar_url vd) (client_path output_dir) (w\<lparr>fs := f1'\<rparr>)) = (rl', w2')"
      and "download_file E (asset_index_url vd) ?idx (workers_run E w2') = (out3, w3')"
      and "w' = w3'"
    with m l d have "w' = ?w3" by simp
    then show ?thesis using fin c3 by simp
  next
    fix f1' rl' w2' cp out3 w3' ods ro w4 e
    assume "makedirs_all ?ds (fs w) = (None, f1')"
      and "libraries_loop E output_dir (libraries_dir output_dir) (libraries vd) []
             (submit E (client_jar_url vd) (client_path output_dir) (w\<lparr>fs := f1'\<rparr>)) = (rl', w2')"
      and "download_file E (asset_index_url vd) ?idx (workers_run E w2') = (out3, w3')"
      and "read_asset_index E ?idx (fs w3') = Inr ods"
      and "objects_loop E (objects_dir output_dir) ods w3' = (ro, w4)"
      and "w' = w4"
    with m l d have "read_asset_index E ?idx (fs ?w3) = Inr ods"
      "objects_loop E (objects_dir output_dir) ods ?w3 = (ro, w')" by simp_all
    then have "calm ?W0 w'" by (rule c4)
    then show ?thesis by (rule fin)
  next
    fix f1' rl' w2' cp out3 w3' ods ro w4
    assume "makedirs_all ?ds (fs w) = (None, f1')"
      and "libraries_loop E output_dir (libraries_dir output_dir) (libraries vd) []
             (submit E (client_jar_url vd) (client_path output_dir) (w\<lparr>fs := f1'\<rparr>)) = (rl', w2')"
      and "download_file E (asset_index_url vd) ?idx (workers_run E w2') = (out3, w3')"
      and "read_asset_index E ?idx (fs w3') = Inr ods"
      and "objects_loop E (objects_dir output_dir) ods w3' = (ro, w4)"
      and w: "write_descriptor E output_dir v vd cp w4 = (r, w')"
    with m l d have "read_asset_index E ?idx (fs ?w3) = Inr ods"
      "objects_loop E (objects_dir output_dir) ods ?w3 = (ro, w4)" by simp_all
    then have c: "calm ?W0 w4" by (rule c4)
    have "extends_by (\<lambda>e. \<not> is_session_get e) w w4" using fin [OF c] by simp
    moreover have "extends_by (\<lambda>e. \<not> is_session_get e) w4 w'" "quiet w'"
      using wd [OF c w] by simp_all
    ultimately show ?thesis using extends_by_trans by metis
  qed
qed

lemma request_not_get: "list_all is_request evs \<Longrightarrow> list_all (\<lambda>e. \<not> is_session_get e) evs"
proof (induction evs)
  case Nil
  then show ?case by simp
next
  case (Cons e evs)
  then show ?case by (cases e) auto
qed

lemma no_gets_filter:
  "extends_by (\<lambda>e. \<not> is_session_get e) w w' \<Longrightarrow>
   filter is_session_get (trace w') = filter is_session_get (trace w)"
  by (auto simp: extends_by_def list_all_iff filter_empty_conv)

text \<open>
  C5. When the destination exists, whatever it holds, \<^verbatim>\<open>download_file\<close> returns at once:
  no request is made and the world (files, trace, queue) is as before. Consequently a
  run of the program against a fully populated target directory makes no download
  request: the calls of \<^verbatim>\<open>session.get\<close> in its trace are those that were there before.
\<close>

theorem existing_file_is_skipped:
  "(fs w dest_path \<noteq> None \<longrightarrow> download_file E url dest_path w = (Skipped, w))
   \<and> (fully_populated E output_dir v w0 \<longrightarrow>
        filter is_session_get (trace (snd (main E output_dir v w0)))
          = filter is_session_get (trace w0))"
proof -
  have "filter is_session_get (trace (snd (main E output_dir v w0)))
          = filter is_session_get (trace w0)"
    if pop: "fully_populated E output_dir v w0"
  proof (cases "output_dir = [] \<or> v = []")
    case True
    then show ?thesis by (auto simp: main_def)
  next
    case False
    obtain rv w1 where g: "get_version_data E v w0 = (rv, w1)"
      by (cases "get_version_data E v w0") auto
    have g1: "fs w1 = fs w0" "extends_by is_request w0 w1"
      using get_version_data_effect [OF g] by simp_all
    have e1: "extends_by (\<lambda>e. \<not> is_session_get e) w0 w1"
      using g1(2) request_not_get by (auto simp: extends_by_def)
    show ?thesis
    proof (cases rv)
      case (Inl e)
      with False g have "snd (main E output_dir v w0) = w1" by (simp add: main_def)
      then show ?thesis using e1 no_gets_filter by simp
    next
      case (Inr vd)
      let ?w1 = "w1\<lparr>pending := []\<rparr>"
      obtain r2 w2 where d: "download_minecraft_structure E output_dir v vd ?w1 = (r2, w2)"
        by (cases "download_minecraft_structure E output_dir v vd ?w1") auto
      with False g Inr have s: "snd (main E output_dir v w0) = drain E w2"
        by (simp add: main_def)
      have q: "quiet ?w1" by (simp add: quiet_def)
      have p: "list_all (\<lambda>p. fs ?w1 p \<noteq> None) (planned_paths E output_dir vd (fs ?w1))"
        using pop g Inr g1(1) by (simp add: fully_populated_def)
      have e2: "extends_by (\<lambda>e. \<not> is_session_get e) ?w1 w2" "quiet w2"
        using dms_calm [OF d q p] by simp_all
      have e3: "extends_by (\<lambda>e. \<not> is_session_get e) w2 (drain E w2)"
        using run_pending_calm [OF e2(2)] by (simp add: drain_def calm_def)
      have "extends_by (\<lambda>e. \<not> is_session_get e) w1 w2"
        using e2(1) by (simp add: extends_by_def)
      with e1 have "extends_by (\<lambda>e. \<not> is_session_get e) w0 w2" by (rule extends_by_trans)
      then have "extends_by (\<lambda>e. \<not> is_session_get e) w0 (drain E w2)"
        using e3 by (rule extends_by_trans)
      then show ?thesis unfolding s by (rule no_gets_filter)
    qed
  qed
  then show ?thesis by (simp add: download_file_skip)
qed

lemma ex_populated_client: "fs ex_populated_world ''out/client.jar'' \<noteq> None"
  by (simp add: ex_populated_world_def)

lemma ex_populated: "fully_populated ex_env ''out'' ''1.20'' ex_populated_world"
  by code_simp

lemma ex_populated_trace: "trace ex_populated_world = []"
  by (simp add: ex_populated_world_def)

theorem existing_file_is_skipped_witness:
  "download_file ex_env (JStr ''https://h/client.jar'') ''out/client.jar'' ex_populated_world
     = (Skipped, ex_populated_world)
   \<and> filter is_session_get (trace (snd (main ex_env ''out'' ''1.20'' ex_populated_world))) = []"
proof -
  have "filter is_session_get (trace ex_populated_world) = []"
    unfolding ex_populated_trace by simp
  then show ?thesis
    using ex_populated_client ex_populated
      existing_file_is_skipped [of ex_populated_world "''out/client.jar''" ex_env
        "JStr ''https://h/client.jar''" "''out''" "''1.20''" ex_populated_world]
    by metis
qed

section \<open>Failed fetches\<close>

lemma makedirs_no_file:
  assumes "makedirs name f = (r, f1)" and "f p = None"
  shows "f1 p \<noteq> Some (File c)"
proof -
  have "f1 p = f p \<or> (f p = None \<and> f1 p = Some Dir)"
    using makedirs_adds [OF assms(1)] by (simp add: adds_dirs_def)
  with assms(2) show ?thesis by auto
qed

text \<open>
  C6 (as amended). For a destination that did not exist: when the request fails before
  a body arrives (no connection, or a status from 400 to 599, the statuses
  \<^verbatim>\<open>raise_for_status\<close> rejects), the fetch fails and there is no file at the destination;
  and a failed fetch leaves a file there only when the body broke off, the file then
  holding the chunks that had arrived.
\<close>

theorem failed_fetch_leaves_no_file:
  assumes "fs w dest_path = None"
    and "download_file E (JStr u) dest_path w = (out, w')"
  shows "(http E u = NoResponse
            \<or> (\<exists>status chunks complete.
                  http E u = Response status chunks complete \<and> 400 \<le> status \<and> status < 600)
          \<longrightarrow> (\<exists>e. out = Failed e) \<and> (\<forall>c. fs w' dest_path \<noteq> Some (File c)))
         \<and> ((\<exists>e. out = Failed e) \<and> fs w' dest_path = Some (File c)
            \<longrightarrow> (\<exists>status chunks. http E u = Response status chunks False \<and> c = concat chunks))"
proof -
  obtain r f1 where m: "makedirs (dirname dest_path) (fs w) = (r, f1)"
    by (cases "makedirs (dirname dest_path) (fs w)") auto
  have nf: "f1 dest_path \<noteq> Some (File c')" for c'
    using m assms(1) by (rule makedirs_no_file)
  have o: "out = fst (download_file E (JStr u) dest_path w)"
    "w' = snd (download_file E (JStr u) dest_path w)"
    using assms(2) by simp_all
  show ?thesis
  proof (cases r)
    case (Some e)
    have "download_file E (JStr u) dest_path w = (Failed e, w\<lparr>fs := f1\<rparr>)"
      using assms(1) m Some by (simp add: download_file_def)
    then show ?thesis unfolding o using nf by simp
  next
    case None
    let ?w1 = "w\<lparr>fs := f1, trace := trace w @ [SessionGet (JStr u)]\<rparr>"
    show ?thesis
    proof (cases "http E u")
      case NoResponse
      have "download_file E (JStr u) dest_path w = (Failed ConnectionError, ?w1)"
        using assms(1) m None NoResponse by (simp add: download_file_def Let_def)
      then show ?thesis unfolding o using nf NoResponse by simp
    next
      case (Response status chunks complete)
      show ?thesis
      proof (cases "400 \<le> status \<and> status < 600")
        case True
        have "download_file E (JStr u) dest_path w = (Failed (HTTPError status), ?w1)"
          using assms(1) m None Response True by (simp add: download_file_def Let_def)
        then show ?thesis unfolding o using nf by simp
      next
        case False
        then have ok: "(400 \<le> status \<and> status < 600) = False" by simp
        show ?thesis
        proof (cases "open_write dest_path f1")
          case (Inl e)
          have "download_file E (JStr u) dest_path w = (Failed e, ?w1)"
            using assms(1) m None Response Inl by (simp add: download_file_def Let_def ok)
          then show ?thesis unfolding o using nf Response False by simp
        next
          case (Inr f2)
          have "download_file E (JStr u) dest_path w
                = (if complete then Downloaded else Failed ConnectionError,
                   ?w1\<lparr>fs := f2(dest_path \<mapsto> File (concat chunks))\<rparr>)"
            using assms(1) m None Response Inr by (simp add: download_file_def Let_def ok)
          then show ?thesis unfolding o using Response False by simp
        qed
      qed
    qed
  qed
qed

lemma ex_404_fetch:
  "fst (download_file ex_env (JStr ''https://resources.download.minecraft.net/ff/ffee00'')
          ''out/assets/objects/ff/ffee00'' ex_world) = Failed (HTTPError 404)"
  by code_simp

theorem failed_fetch_leaves_no_file_witness:
  "fst (download_file ex_env (JStr ''https://resources.download.minecraft.net/ff/ffee00'')
          ''out/assets/objects/ff/ffee00'' ex_world) = Failed (HTTPError 404)
   \<and> (\<forall>c. fs (snd (download_file ex_env
                      (JStr ''https://resources.download.minecraft.net/ff/ffee00'')
                      ''out/assets/objects/ff/ffee00'' ex_world))
             ''out/assets/objects/ff/ffee00'' \<noteq> Some (File c))"
proof -
  let ?u = "''https://resources.download.minecraft.net/ff/ffee00''"
  let ?d = "download_file ex_env (JStr ?u) ''out/assets/objects/ff/ffee00'' ex_world"
  have a: "fs ex_world ''out/assets/objects/ff/ffee00'' = None" by (simp add: ex_world_def)
  have b: "?d = (fst ?d, snd ?d)" by simp
  have c: "http ex_env ?u = Response 404 [''Not Found''] True"
    by (simp add: ex_env_def ex_http_def MANIFEST_URL_def)
  have "\<exists>status chunks complete.
          http ex_env ?u = Response status chunks complete \<and> 400 \<le> status \<and> status < 600"
    unfolding c by auto
  then have "\<forall>c. fs (snd ?d) ''out/assets/objects/ff/ffee00'' \<noteq> Some (File c)"
    using failed_fetch_leaves_no_file [OF a b] by blast
  with ex_404_fetch show ?thesis by blast
qed

text \<open>
  The claim as the specification states it fails for a response that is neither a
  success nor an error for \<^verbatim>\<open>raise_for_status\<close>: with the final status 304 the file is
  created and the fetch ends as a download.
\<close>

theorem non_2xx_response_creates_file:
  "fst (download_file ex_env_304 (JStr ''https://h/client.jar'') ''out/client.jar'' ex_world)
     = Downloaded
   \<and> fs (snd (download_file ex_env_304 (JStr ''https://h/client.jar'') ''out/client.jar''
               ex_world)) ''out/client.jar''
     = Some (File [])"
  by code_simp

end
